theory Spec2Isabelle
  imports Main "HOL-Library.Sublist"
begin

section \<open>HSPiP\_CLI\_v7.py: data model\<close>

text \<open>
  A cell of a pandas table is either the missing-value marker \<open>np.nan\<close> or a value read
  from the tool's output file. A one-row DataFrame is the list of its (column, cell)
  pairs; the joined table \<open>amHSP\<close> is the list of its rows, each the raw identifier of the
  \<open>SMILES\<close> column paired with the one-row DataFrame placed beside it.
\<close>

datatype cell = NaN | Cell string

type_synonym hsp_df = "(string \<times> cell) list"

type_synonym hsp_table = "(string \<times> hsp_df) list"

text \<open>The column list written out three times in the script (lines 102-108, 213-219, 318-324, 342-348).\<close>

definition hsp_columns :: "string list" where
  "hsp_columns =
    [''HSPiP_SMILES'', ''Formula'', ''D'', ''P'', ''H'', ''HDon'', ''HAcc'', ''MWt'', ''Density'', ''MVol'',
     ''Area'', ''Ovality'', ''BPt'', ''MPt'', ''Tc'', ''Pc'', ''Vc'', ''Zc'', ''AntA'', ''AntB'',
     ''AntC'', ''Ant1T'', ''LogKow'', ''LogS'', ''Henry'', ''LogOHR'', ''RI'', ''Hfus'', ''HvBPt'',
     ''Trouton'', ''RER'', ''Abra'', ''Abrb'', ''EdmiW'', ''Parachor'', ''RD'', ''Cp'', ''log'',
     ''Cond'', ''SurfTen'', ''HeavyAtom'', ''C'', ''H1'', ''Br'', ''Cl'', ''F'', ''I'', ''N'', ''O'',
     ''P1'', ''S'', ''Si'', ''B'', ''MaxPc'', ''MinMc'', ''Sym'', ''MCI'', ''Hcomb'', ''Hform'',
     ''Gform'', ''FGList'']"

text \<open>\<open>pd.DataFrame({col: [np.nan] for col in [...]})\<close>: one row, every column missing.\<close>

definition empty_df :: hsp_df where
  "empty_df = map (\<lambda>col. (col, NaN)) hsp_columns"

text \<open>The Python exceptions that the modelled paths of the two scripts can raise.\<close>

datatype exn =
    NameError string
  | UnboundLocalError string
  | IndexError
  | ValueError
  | CalledProcessError
  | OSError
  | KeyError
  | TypeError
  | AttributeError
  | RequestException string
  | JSONDecodeError

subsection \<open>External collaborators\<close>

text \<open>
  RDKit is a parameter: \<open>Chem.MolFromSmiles\<close> returns a molecule, returns \<open>None\<close>, or
  raises; \<open>Chem.MolToSmiles\<close> returns a string or raises (\<open>None\<close> below).
\<close>

datatype mol = Mol string

datatype parse = Parsed mol | ParsedNone | ParseRaises

record rdkit =
  MolFromSmiles :: "string \<Rightarrow> parse"
  MolToSmiles :: "mol \<Rightarrow> string option"

text \<open>
  The desktop tool and the file system are a parameter too, indexed by a clock that
  advances by one at every external interaction (writing the script, running it, looking
  at \<open>Out.dat\<close>), so that the same identifier may fail now and succeed later.
  \<^item> \<open>create_at\<close>: \<open>create_batch_file\<close> writes the script, or raises with the file left on
    disk or not;
  \<^item> \<open>run_at\<close>: \<open>subprocess.run(..., check=True)\<close> returns (True) or raises;
  \<^item> \<open>out_at\<close>: the state of \<open>Out.dat\<close>: absent or empty; \<open>os.path.getsize\<close> raising;
    present but \<open>pd.read_csv\<close> / \<open>opts.iloc[0]\<close> raising; or readable, with the first data
    row as a one-row DataFrame.
\<close>

datatype create_outcome = Created | CreateRaises bool

datatype out_dat = OutAbsent | OutStatRaises | OutUnreadable | OutRow hsp_df

record tool =
  create_at :: "nat \<Rightarrow> create_outcome"
  run_at :: "nat \<Rightarrow> bool"
  out_at :: "nat \<Rightarrow> out_dat"

text \<open>
  What the script does to the outside world, in order. Of the log lines, those that
  mark the end of an attempt or of an item are kept (lines 195, 224, 236, 243, 251),
  each with the original index it names.
\<close>

datatype log_msg =
    FailedToCanonicalize nat
  | SuccessfullyProcessed nat
  | MaxOutputRetriesReached nat
  | ErrorProcessing nat
  | FailedToProcess nat

datatype event =
    Canonicalize string
  | CreateScript nat string create_outcome
  | RunScript nat bool
  | ReadOutput out_dat
  | Sleep nat
  | RemoveScript nat
  | ClearClipboard
  | Log log_msg

subsection \<open>State\<close>

text \<open>
  The module-level state that \<open>process_smiles_batch\<close> reads and changes:
  \<open>invalid_smiles_indices\<close> is the module-level list (line 151) that the function appends
  to; the other fields are the outside world: the temporary scripts that exist (each
  \<open>temp_hspip_<index>.bat\<close> named by its index), the clock, the trace of actions, the
  files written and the batch counts logged by \<open>save_intermediate_results\<close>.
\<close>

record module_state =
  invalid_smiles_indices :: "nat list"
  scripts :: "nat set"
  clock :: nat
  trace :: "event list"
  files :: "(string \<times> hsp_table) list"
  checkpoints :: "nat list"

text \<open>
  Inside \<open>process_smiles_batch\<close> the state has the function's local variables as well
  (lines 177-179, 189, 200). \<open>batch_file_path\<close> is \<open>None\<close> while the local name is still
  unbound, and holds the original index that names the script afterwards.
\<close>

record pstate = module_state +
  all_hsp_full :: "(hsp_df \<times> nat) list"
  failed_output_smiles :: "(string \<times> nat) list"
  batch_count :: nat
  batch_file_path :: "nat option"
  success :: bool

text \<open>An external interaction advances the clock; a log line or a sleep does not.\<close>

definition observe :: "event \<Rightarrow> pstate \<Rightarrow> pstate" where
  "observe e st = st\<lparr>clock := Suc (clock st), trace := trace st @ [e]\<rparr>"

definition emit :: "event \<Rightarrow> pstate \<Rightarrow> pstate" where
  "emit e st = st\<lparr>trace := trace st @ [e]\<rparr>"

definition sleep :: "nat \<Rightarrow> pstate \<Rightarrow> pstate" where
  "sleep d st = emit (Sleep d) st"

section \<open>HSPiP\_CLI\_v7.py: functions\<close>

text \<open>Lines 71-78.\<close>

definition canonicalize_smiles :: "rdkit \<Rightarrow> string \<Rightarrow> string option" where
  "canonicalize_smiles lib smiles =
     (case MolFromSmiles lib smiles of
        ParseRaises \<Rightarrow> None
      | ParsedNone \<Rightarrow> None
      | Parsed m \<Rightarrow> MolToSmiles lib m)"

text \<open>Lines 81-85: \<open>open(batch_file_path, 'w')\<close> and three writes.\<close>

definition create_batch_file :: "tool \<Rightarrow> string \<Rightarrow> nat \<Rightarrow> pstate \<Rightarrow> exn option \<times> pstate" where
  "create_batch_file w smi path st =
     (let c = create_at w (clock st); st1 = observe (CreateScript path smi c) st in
      case c of
        Created \<Rightarrow> (None, st1\<lparr>scripts := insert path (scripts st1)\<rparr>)
      | CreateRaises left \<Rightarrow>
          (Some OSError, if left then st1\<lparr>scripts := insert path (scripts st1)\<rparr> else st1))"

text \<open>
  Lines 89-113, and again lines 305-329: the sparse array indexed by original position,
  the placeholder for every gap, and the concatenation beside the \<open>SMILES\<close> column.
  Assigning past the end of a Python list raises; \<open>pd.concat\<close> of no frames raises.
\<close>

fun place_results :: "(hsp_df \<times> nat) list \<Rightarrow> hsp_df option list \<Rightarrow> exn + hsp_df option list" where
  "place_results [] ordered_results = Inr ordered_results"
| "place_results ((df, original_index) # rest) ordered_results =
     (if original_index < length ordered_results
      then place_results rest (ordered_results[original_index := Some df])
      else Inl IndexError)"

definition final_dfs :: "hsp_df option list \<Rightarrow> hsp_df list" where
  "final_dfs ordered_results =
     map (\<lambda>r. case r of Some df \<Rightarrow> df | None \<Rightarrow> empty_df) ordered_results"

definition ordered_table :: "(hsp_df \<times> nat) list \<Rightarrow> string list \<Rightarrow> exn + hsp_table" where
  "ordered_table hsp original_smiles =
     (case place_results hsp (replicate (length original_smiles) None) of
        Inl e \<Rightarrow> Inl e
      | Inr ordered_results \<Rightarrow>
          (if final_dfs ordered_results = [] then Inl ValueError
           else Inr (zip original_smiles (final_dfs ordered_results))))"

text \<open>Lines 88-120.\<close>

definition save_intermediate_results ::
  "string list \<Rightarrow> string \<Rightarrow> pstate \<Rightarrow> exn option \<times> pstate" where
  "save_intermediate_results original_smiles timestamp st =
     (case ordered_table (all_hsp_full st) original_smiles of
        Inl e \<Rightarrow> (Some e, st)
      | Inr amHSP \<Rightarrow>
          (None, st\<lparr>files := files st @
                      [(''intermediate_HSP_'' @ timestamp @ ''.csv'', amHSP),
                       (''intermediate_HSP_'' @ timestamp @ ''.xlsx'', amHSP)],
                    checkpoints := checkpoints st @ [batch_count st]\<rparr>))"

subsection \<open>process\_smiles\_batch, innermost loop first\<close>

text \<open>Lines 209-231: \<open>for output_retry in range(max_output_retries)\<close>, by the iterations left.\<close>

fun read_output_loop :: "tool \<Rightarrow> nat \<Rightarrow> nat \<Rightarrow> nat \<Rightarrow> pstate \<Rightarrow> exn option \<times> pstate" where
  "read_output_loop w retry_delay original_index 0 st = (None, st)"
| "read_output_loop w retry_delay original_index (Suc n) st =
     (case out_at w (clock st) of
        OutStatRaises \<Rightarrow> (Some OSError, observe (ReadOutput OutStatRaises) st)
      | OutAbsent \<Rightarrow>
          read_output_loop w retry_delay original_index n
            (sleep retry_delay (observe (ReadOutput OutAbsent) st))
      | OutUnreadable \<Rightarrow>
          read_output_loop w retry_delay original_index n
            (sleep retry_delay (observe (ReadOutput OutUnreadable) st))
      | OutRow hsp_df \<Rightarrow>
          (None, emit (Log (SuccessfullyProcessed original_index))
                   ((observe (ReadOutput (OutRow hsp_df)) st)
                      \<lparr>all_hsp_full := all_hsp_full st @ [(hsp_df, original_index)],
                       success := True\<rparr>)))"

text \<open>
  How the body of the \<open>try\<close> (lines 192-241) ends: every path that does not raise ends
  in \<open>break\<close>.
\<close>

datatype signal = Break | Raised exn

definition escalate :: "string \<Rightarrow> string \<Rightarrow> nat \<Rightarrow> pstate \<Rightarrow> pstate" where
  "escalate round_desc smi original_index st =
     (if round_desc = ''initial''
      then st\<lparr>failed_output_smiles := failed_output_smiles st @ [(smi, original_index)]\<rparr>
      else st\<lparr>invalid_smiles_indices := invalid_smiles_indices st @ [original_index]\<rparr>)"

definition try_body ::
  "rdkit \<Rightarrow> tool \<Rightarrow> nat \<Rightarrow> nat \<Rightarrow> string \<Rightarrow> string \<Rightarrow> nat \<Rightarrow> pstate \<Rightarrow> signal \<times> pstate" where
  "try_body lib w max_output_retries retry_delay round_desc smi original_index st =
     (let st1 = emit (Canonicalize smi) st in
      case canonicalize_smiles lib smi of
        None \<Rightarrow>
          (let st2 = emit (Log (FailedToCanonicalize original_index)) st1 in
           (Break, st2\<lparr>invalid_smiles_indices := invalid_smiles_indices st2 @ [original_index]\<rparr>))
      | Some canon_smi \<Rightarrow>
          (case create_batch_file w canon_smi original_index
                  (st1\<lparr>batch_file_path := Some original_index\<rparr>) of
             (Some e, st2) \<Rightarrow> (Raised e, st2)
           | (None, st2) \<Rightarrow>
               (if \<not> run_at w (clock st2)
                then (Raised CalledProcessError, observe (RunScript original_index False) st2)
                else
                  (case read_output_loop w retry_delay original_index max_output_retries
                          (observe (RunScript original_index True) st2) of
                     (Some e, st3) \<Rightarrow> (Raised e, st3)
                   | (None, st3) \<Rightarrow>
                       (if success st3 then (Break, st3)
                        else (Break, escalate round_desc smi original_index
                                       (emit (Log (MaxOutputRetriesReached original_index)) st3)))))))"

text \<open>
  Lines 191-248, one iteration of \<open>for retry in range(max_retries)\<close>: the body, the
  handler \<open>except Exception\<close> (log, sleep), and the \<open>finally\<close> clause, which reads the
  local \<open>batch_file_path\<close>. An exception raised by the \<open>finally\<close> clause replaces the
  pending \<open>break\<close> and leaves the function.
\<close>

datatype loop_ctl = LeaveLoop | NextAttempt | Propagate exn

definition attempt ::
  "rdkit \<Rightarrow> tool \<Rightarrow> nat \<Rightarrow> nat \<Rightarrow> string \<Rightarrow> string \<Rightarrow> nat \<Rightarrow> pstate \<Rightarrow> loop_ctl \<times> pstate" where
  "attempt lib w max_output_retries retry_delay round_desc smi original_index st =
     (case try_body lib w max_output_retries retry_delay round_desc smi original_index st of
        (sig, st1) \<Rightarrow>
          (let st2 = (case sig of
                        Raised e \<Rightarrow> sleep retry_delay (emit (Log (ErrorProcessing original_index)) st1)
                      | Break \<Rightarrow> st1) in
           case batch_file_path st2 of
             None \<Rightarrow> (Propagate (UnboundLocalError ''batch_file_path''), st2)
           | Some p \<Rightarrow>
               (let st3 = (if p \<in> scripts st2
                           then (emit (RemoveScript p) st2)\<lparr>scripts := scripts st2 - {p}\<rparr>
                           else st2) in
                case sig of Break \<Rightarrow> (LeaveLoop, st3) | Raised e \<Rightarrow> (NextAttempt, st3))))"

text \<open>Lines 190-248: \<open>for retry in range(max_retries)\<close>, by the iterations left.\<close>

fun retry_loop ::
  "rdkit \<Rightarrow> tool \<Rightarrow> nat \<Rightarrow> nat \<Rightarrow> string \<Rightarrow> string \<Rightarrow> nat \<Rightarrow> nat \<Rightarrow> pstate \<Rightarrow> exn option \<times> pstate" where
  "retry_loop lib w max_output_retries retry_delay round_desc smi original_index 0 st = (None, st)"
| "retry_loop lib w max_output_retries retry_delay round_desc smi original_index (Suc n) st =
     (case attempt lib w max_output_retries retry_delay round_desc smi original_index st of
        (Propagate e, st1) \<Rightarrow> (Some e, st1)
      | (LeaveLoop, st1) \<Rightarrow> (None, st1)
      | (NextAttempt, st1) \<Rightarrow>
          retry_loop lib w max_output_retries retry_delay round_desc smi original_index n st1)"

text \<open>The configuration passed to \<open>process_smiles_batch\<close> (its parameters, lines 176 and 280-284).\<close>

record config =
  batch_size :: nat
  max_retries :: nat
  max_output_retries :: nat
  retry_delay :: nat
  clipboard_delay :: nat
  round_desc :: string

text \<open>Lines 187-262: the body of \<open>for smi, original_index in batch\<close>.\<close>

definition process_item ::
  "rdkit \<Rightarrow> tool \<Rightarrow> config \<Rightarrow> string \<times> nat \<Rightarrow> pstate \<Rightarrow> exn option \<times> pstate" where
  "process_item lib w cfg item st =
     (case item of (smi, original_index) \<Rightarrow>
        (case retry_loop lib w (max_output_retries cfg) (retry_delay cfg) (round_desc cfg)
                smi original_index (max_retries cfg) (st\<lparr>success := False\<rparr>) of
           (Some e, st1) \<Rightarrow> (Some e, st1)
         | (None, st1) \<Rightarrow>
             (let st2 = (if \<not> success st1
                         then escalate (round_desc cfg) smi original_index
                                (emit (Log (FailedToProcess original_index)) st1)
                         else st1)
              in (None, sleep (clipboard_delay cfg) (emit ClearClipboard st2)))))"

fun process_items ::
  "rdkit \<Rightarrow> tool \<Rightarrow> config \<Rightarrow> (string \<times> nat) list \<Rightarrow> pstate \<Rightarrow> exn option \<times> pstate" where
  "process_items lib w cfg [] st = (None, st)"
| "process_items lib w cfg (item # batch) st =
     (case process_item lib w cfg item st of
        (Some e, st1) \<Rightarrow> (Some e, st1)
      | (None, st1) \<Rightarrow> process_items lib w cfg batch st1)"

text \<open>
  Lines 181-272: \<open>for batch_start in range(0, len(smiles_list), batch_size)\<close>. The case
  \<open>batch_size = 0\<close>, where \<open>range\<close> raises, is taken out by \<open>process_smiles_batch\<close> below.
\<close>

function batch_loop ::
  "rdkit \<Rightarrow> tool \<Rightarrow> config \<Rightarrow> string list \<Rightarrow> string \<Rightarrow> (string \<times> nat) list \<Rightarrow> nat \<Rightarrow> pstate
     \<Rightarrow> exn option \<times> pstate" where
  "batch_loop lib w cfg original_smiles timestamp smiles_list batch_start st =
     (if batch_start < length smiles_list \<and> 0 < batch_size cfg then
        (let batch_end = min (batch_start + batch_size cfg) (length smiles_list);
             batch = take (batch_end - batch_start) (drop batch_start smiles_list)
         in case process_items lib w cfg batch (st\<lparr>batch_count := batch_count st + 1\<rparr>) of
              (Some e, st1) \<Rightarrow> (Some e, st1)
            | (None, st1) \<Rightarrow>
                (case (if batch_count st1 mod 10 = 0
                       then save_intermediate_results original_smiles timestamp st1
                       else (None, st1)) of
                   (Some e, st2) \<Rightarrow> (Some e, st2)
                 | (None, st2) \<Rightarrow>
                     batch_loop lib w cfg original_smiles timestamp smiles_list
                       (batch_start + batch_size cfg)
                       (if batch_start + batch_size cfg < length smiles_list
                        then sleep 10 st2 else st2)))
      else (None, st))"
  by pat_completeness auto
termination
  by (relation "measure (\<lambda>(lib, w, cfg, original_smiles, timestamp, smiles_list, batch_start, st).
                   length smiles_list - batch_start)") auto

text \<open>
  Lines 176-277. The locals \<open>all_hsp_full\<close>, \<open>failed_output_smiles\<close> and \<open>batch_count\<close> are
  bound afresh on entry; \<open>batch_file_path\<close> is not bound yet, and \<open>success\<close> is assigned
  (line 189) before it is read.
\<close>

definition enter :: "module_state \<Rightarrow> pstate" where
  "enter g =
     \<lparr>invalid_smiles_indices = invalid_smiles_indices g, scripts = scripts g, clock = clock g,
      trace = trace g, files = files g, checkpoints = checkpoints g,
      all_hsp_full = [], failed_output_smiles = [], batch_count = 0,
      batch_file_path = None, success = False\<rparr>"

definition process_smiles_batch ::
  "rdkit \<Rightarrow> tool \<Rightarrow> string list \<Rightarrow> string \<Rightarrow> (string \<times> nat) list \<Rightarrow> config \<Rightarrow> module_state
     \<Rightarrow> exn option \<times> pstate" where
  "process_smiles_batch lib w original_smiles timestamp smiles_list cfg g =
     (if batch_size cfg = 0 then (Some ValueError, enter g)
      else
        (case batch_loop lib w cfg original_smiles timestamp smiles_list 0 (enter g) of
           (Some e, st1) \<Rightarrow> (Some e, st1)
         | (None, st1) \<Rightarrow>
             (if batch_count st1 mod 10 \<noteq> 0
              then save_intermediate_results original_smiles timestamp st1
              else (None, st1))))"

subsection \<open>Module top level\<close>

text \<open>Lines 142-146: the sentinel filter, with the positions kept for the final output.\<close>

definition valid_smiles_indices :: "string list \<Rightarrow> nat list" where
  "valid_smiles_indices all_smiles =
     map fst (filter (\<lambda>(i, smi). smi \<noteq> ''CAS number not found'') (enumerate 0 all_smiles))"

definition invalid_cas_indices :: "string list \<Rightarrow> nat list" where
  "invalid_cas_indices all_smiles =
     map fst (filter (\<lambda>(i, smi). smi = ''CAS number not found'') (enumerate 0 all_smiles))"

definition filtered_smiles :: "string list \<Rightarrow> string list" where
  "filtered_smiles all_smiles = filter (\<lambda>smi. smi \<noteq> ''CAS number not found'') all_smiles"

text \<open>
  Lines 151-164: \<open>for i, smi in enumerate(all_smiles)\<close> over the filtered list, with the
  pair (\<open>invalid_smiles_indices\<close>, \<open>valid_smiles\<close>) built up. \<open>idx\<close> is
  \<open>valid_smiles_indices\<close>; reading it past its end raises \<open>IndexError\<close> inside the
  \<open>try\<close>, whose handler reads it again, so that the exception leaves the loop.
\<close>

fun validate_loop ::
  "rdkit \<Rightarrow> nat list \<Rightarrow> nat \<Rightarrow> string list \<Rightarrow> nat list \<times> (string \<times> nat) list
     \<Rightarrow> exn + nat list \<times> (string \<times> nat) list" where
  "validate_loop lib idx i [] acc = Inr acc"
| "validate_loop lib idx i (smi # rest) (invalid, valid) =
     (if length idx \<le> i then Inl IndexError
      else
        (case MolFromSmiles lib smi of
           Parsed m \<Rightarrow> validate_loop lib idx (Suc i) rest (invalid, valid @ [(smi, idx ! i)])
         | ParsedNone \<Rightarrow> validate_loop lib idx (Suc i) rest (invalid @ [idx ! i], valid)
         | ParseRaises \<Rightarrow> validate_loop lib idx (Suc i) rest (invalid @ [idx ! i], valid)))"

text \<open>Lines 280-285: the parameters of the initial round.\<close>

definition initial_config :: config where
  "initial_config =
     \<lparr>batch_size = 100, max_retries = 3, max_output_retries = 3, retry_delay = 2,
      clipboard_delay = 2, round_desc = ''initial''\<rparr>"

text \<open>
  Lines 303-356, as a function of the three names the block reads: the final assembly
  and the files it writes, \<open>all_HSP_<timestamp>\<close> with the joined table when
  \<open>all_hsp_full\<close> is not empty and \<open>all_HSP_<timestamp>_empty\<close> with the all-missing table
  otherwise.
\<close>

definition final_results ::
  "string \<Rightarrow> (hsp_df \<times> nat) list \<Rightarrow> string list \<Rightarrow> exn + (string \<times> hsp_table) list" where
  "final_results timestamp hsp original_smiles =
     (if hsp \<noteq> [] then
        (case ordered_table hsp original_smiles of
           Inl e \<Rightarrow> Inl e
         | Inr amHSP \<Rightarrow>
             Inr [(''all_HSP_'' @ timestamp @ ''.csv'', amHSP),
                  (''all_HSP_'' @ timestamp @ ''.xlsx'', amHSP)])
      else
        (let amHSP = map (\<lambda>smi. (smi, empty_df)) original_smiles in
         Inr [(''all_HSP_'' @ timestamp @ ''_empty.csv'', amHSP),
              (''all_HSP_'' @ timestamp @ ''_empty.xlsx'', amHSP)]))"

text \<open>
  When \<open>process_smiles_batch\<close> returns (it returns \<open>None\<close>), its local variables are gone:
  only the module-level state is left.
\<close>

definition leave :: "pstate \<Rightarrow> module_state" where
  "leave st =
     \<lparr>invalid_smiles_indices = invalid_smiles_indices st, scripts = scripts st, clock = clock st,
      trace = trace st, files = files st, checkpoints = checkpoints st\<rparr>"

text \<open>
  The script from line 142 on, given the list loaded from the input file and the
  timestamp of line 173. The names \<open>all_hsp_full\<close> and \<open>failed_output_smiles\<close> are assigned
  only inside \<open>process_smiles_batch\<close> (lines 177-178, with no \<open>global\<close> declaration), so
  they are that function's locals and the module never binds them: the test
  \<open>if failed_output_smiles:\<close> of line 288 raises \<open>NameError\<close>, and nothing after it runs.
\<close>

definition main :: "rdkit \<Rightarrow> tool \<Rightarrow> string \<Rightarrow> string list \<Rightarrow> exn option \<times> module_state" where
  "main lib w timestamp all_smiles =
     (let original_smiles = all_smiles;
          g = \<lparr>invalid_smiles_indices = [], scripts = {}, clock = 0, trace = [],
               files = [], checkpoints = []\<rparr>
      in case validate_loop lib (valid_smiles_indices all_smiles) 0
                (filtered_smiles all_smiles) ([], []) of
           Inl e \<Rightarrow> (Some e, g)
         | Inr (invalid, valid_smiles) \<Rightarrow>
             (case process_smiles_batch lib w original_smiles timestamp valid_smiles
                     initial_config (g\<lparr>invalid_smiles_indices := invalid\<rparr>) of
                (Some e, st) \<Rightarrow> (Some e, leave st)
              | (None, st) \<Rightarrow> (Some (NameError ''failed_output_smiles''), leave st)))"

section \<open>get\_smiles\_InChI\_IUPAC\_props.py\<close>

subsection \<open>JSON values and the Python operations on them\<close>














subsection \<open>The remote service\<close>





subsection \<open>get\_compound\_info\<close>
















section \<open>Notions used in the properties, and example environments\<close>

text \<open>The events that a step added to the trace.\<close>

definition new_events :: "'a module_state_scheme \<Rightarrow> 'b module_state_scheme \<Rightarrow> event list" where
  "new_events st st' = drop (length (trace st)) (trace st')"

text \<open>
  Environments used to run the model on concrete inputs: an RDKit that accepts and
  canonicalizes every string, a tool whose output file never appears, and the state of
  the module before the first round.
\<close>

definition rdkit_all :: rdkit where
  "rdkit_all =
     \<lparr>MolFromSmiles = (\<lambda>s. Parsed (Mol s)), MolToSmiles = (\<lambda>m. case m of Mol s \<Rightarrow> Some s)\<rparr>"

definition tool_silent :: tool where
  "tool_silent =
     \<lparr>create_at = (\<lambda>t. Created), run_at = (\<lambda>t. True), out_at = (\<lambda>t. OutAbsent)\<rparr>"

definition fresh :: module_state where
  "fresh = \<lparr>invalid_smiles_indices = [], scripts = {}, clock = 0, trace = [],
            files = [], checkpoints = []\<rparr>"











text \<open>
  The Result Assembler's contract in the words of the specification: a table with one
  row per position of the input, the raw identifier paired with the real record placed
  at that position, or with the all-missing placeholder where there is none. Where a
  position has several records, the code keeps the one placed last.
\<close>

definition assemble :: "(hsp_df \<times> nat) list \<Rightarrow> string list \<Rightarrow> hsp_table" where
  "assemble partial_results original_smiles =
     map (\<lambda>i. (original_smiles ! i,
               case map_of (rev (map (\<lambda>(df, i). (i, df)) partial_results)) i of
                 None \<Rightarrow> empty_df
               | Some df \<Rightarrow> df))
       [0..<length original_smiles]"

text \<open>
  The two files that one checkpoint writes for a table: \<open>intermediate_HSP_<timestamp>\<close>
  as \<open>.csv\<close> and as \<open>.xlsx\<close>.
\<close>

definition snapshot :: "string \<Rightarrow> hsp_table \<Rightarrow> (string \<times> hsp_table) list" where
  "snapshot timestamp t =
     [(''intermediate_HSP_'' @ timestamp @ ''.csv'', t),
      (''intermediate_HSP_'' @ timestamp @ ''.xlsx'', t)]"

text \<open>A record with every field present, for concrete runs.\<close>

definition example_row :: hsp_df where
  "example_row = map (\<lambda>col. (col, Cell ''1'')) hsp_columns"

text \<open>\<open>Chem.MolFromSmiles\<close> gives a molecule for the string.\<close>

definition parses :: "rdkit \<Rightarrow> string \<Rightarrow> bool" where
  "parses lib smi = (case MolFromSmiles lib smi of Parsed m \<Rightarrow> True | _ \<Rightarrow> False)"

text \<open>An RDKit that rejects the string \<open>not a molecule\<close> and accepts every other one.\<close>

definition rdkit_strict :: rdkit where
  "rdkit_strict =
     \<lparr>MolFromSmiles = (\<lambda>s. if s = ''not a molecule'' then ParsedNone else Parsed (Mol s)),
      MolToSmiles = (\<lambda>m. case m of Mol s \<Rightarrow> Some s)\<rparr>"

text \<open>
  Kinds of events. The exceptions form two classes, by the handler that catches them.
  Those raised by \<open>create_batch_file\<close>, by \<open>subprocess.run\<close> or by \<open>os.path.getsize\<close>
  reach the handler of line 242, around the attempt. Those raised by \<open>pd.read_csv\<close> or
  \<open>opts.iloc[0]\<close> are caught by the handler of line 226, inside the read loop. A failed
  read is an iteration of the read loop that ends in one of its two
  \<open>time.sleep(retry_delay)\<close>: the file absent or empty, or the handler of line 226.
\<close>

fun is_outer_exception :: "event \<Rightarrow> bool" where
  "is_outer_exception (CreateScript path smi (CreateRaises left)) = True"
| "is_outer_exception (RunScript path False) = True"
| "is_outer_exception (ReadOutput OutStatRaises) = True"
| "is_outer_exception e = False"

fun is_parse_exception :: "event \<Rightarrow> bool" where
  "is_parse_exception (ReadOutput OutUnreadable) = True"
| "is_parse_exception e = False"

fun is_read :: "event \<Rightarrow> bool" where
  "is_read (ReadOutput out) = True"
| "is_read e = False"

fun is_failed_read :: "event \<Rightarrow> bool" where
  "is_failed_read (ReadOutput OutAbsent) = True"
| "is_failed_read (ReadOutput OutUnreadable) = True"
| "is_failed_read e = False"

text \<open>
  The output file is absent, empty or unreadable at each of the \<open>k\<close> interactions from
  time \<open>t\<close> on, and the events that \<open>k\<close> such reads add: the read and the sleep that
  follows it.
\<close>

definition reads_fail :: "tool \<Rightarrow> nat \<Rightarrow> nat \<Rightarrow> bool" where
  "reads_fail w t k \<longleftrightarrow>
     list_all (\<lambda>j. out_at w (t + j) = OutAbsent \<or> out_at w (t + j) = OutUnreadable) [0..<k]"

definition failed_reads :: "tool \<Rightarrow> nat \<Rightarrow> nat \<Rightarrow> nat \<Rightarrow> event list" where
  "failed_reads w d t k = concat (map (\<lambda>j. [ReadOutput (out_at w (t + j)), Sleep d]) [0..<k])"

text \<open>The retry loop of one item under a configuration, with \<open>n\<close> iterations left.\<close>

abbreviation item_retries ::
  "rdkit \<Rightarrow> tool \<Rightarrow> config \<Rightarrow> string \<Rightarrow> nat \<Rightarrow> nat \<Rightarrow> pstate \<Rightarrow> exn option \<times> pstate" where
  "item_retries lib w cfg smi oi n st \<equiv>
     retry_loop lib w (max_output_retries cfg) (retry_delay cfg) (round_desc cfg) smi oi n st"

text \<open>
  More environments for concrete runs: a tool whose process always exits with an error;
  one whose first run fails and whose output appears at the second read of the second
  run; one that always succeeds; one whose output appears only from the sixth
  interaction on; one whose output file is always there and never parses; and an RDKit
  whose \<open>MolToSmiles\<close> raises.
\<close>

definition tool_failing :: tool where
  "tool_failing =
     \<lparr>create_at = (\<lambda>t. Created), run_at = (\<lambda>t. False), out_at = (\<lambda>t. OutAbsent)\<rparr>"

definition tool_flaky :: tool where
  "tool_flaky =
     \<lparr>create_at = (\<lambda>t. Created), run_at = (\<lambda>t. t \<noteq> 1),
      out_at = (\<lambda>t. if t < 5 then OutAbsent else OutRow example_row)\<rparr>"

definition tool_ok :: tool where
  "tool_ok =
     \<lparr>create_at = (\<lambda>t. Created), run_at = (\<lambda>t. True), out_at = (\<lambda>t. OutRow example_row)\<rparr>"

definition tool_slow :: tool where
  "tool_slow =
     \<lparr>create_at = (\<lambda>t. Created), run_at = (\<lambda>t. True),
      out_at = (\<lambda>t. if t < 5 then OutAbsent else OutRow example_row)\<rparr>"

definition tool_garbled :: tool where
  "tool_garbled =
     \<lparr>create_at = (\<lambda>t. Created), run_at = (\<lambda>t. True), out_at = (\<lambda>t. OutUnreadable)\<rparr>"

definition rdkit_uncanonical :: rdkit where
  "rdkit_uncanonical =
     \<lparr>MolFromSmiles = (\<lambda>s. Parsed (Mol s)), MolToSmiles = (\<lambda>m. None)\<rparr>"

section \<open>Properties of the batch/retry orchestrator\<close>

subsection \<open>What one attempt and one item add to the round-2 work list\<close>

lemma read_output_loop_keeps:
  "read_output_loop w d oi n st = (r, st') \<Longrightarrow>
     failed_output_smiles st' = failed_output_smiles st \<and>
     invalid_smiles_indices st' = invalid_smiles_indices st \<and>
     batch_file_path st' = batch_file_path st \<and>
     scripts st' = scripts st \<and>
     (\<exists>evs. trace st' = trace st @ evs \<and> (\<forall>m. Log (MaxOutputRetriesReached m) \<notin> set evs))"
proof (induction n arbitrary: st)
  case 0
  then show ?case by simp
next
  case (Suc n)
  show ?case
  proof (cases "out_at w (clock st)")
    case OutAbsent
    with Suc.prems
    have "read_output_loop w d oi n (sleep d (observe (ReadOutput OutAbsent) st)) = (r, st')"
      by simp
    from Suc.IH[OF this] show ?thesis
      by (auto simp: observe_def emit_def sleep_def)
  next
    case OutUnreadable
    with Suc.prems
    have "read_output_loop w d oi n (sleep d (observe (ReadOutput OutUnreadable) st)) = (r, st')"
      by simp
    from Suc.IH[OF this] show ?thesis
      by (auto simp: observe_def emit_def sleep_def)
  next
    case OutStatRaises
    with Suc.prems show ?thesis by (auto simp: observe_def emit_def sleep_def)
  next
    case (OutRow df)
    with Suc.prems show ?thesis by (auto simp: observe_def emit_def sleep_def)
  qed
qed

lemma try_body_initial:
  assumes "try_body lib w mor d ''initial'' smi oi st = (sig, st')"
  shows "(\<exists>evs. trace st' = trace st @ evs) \<and>
           (if Log (MaxOutputRetriesReached oi) \<in> set (new_events st st')
            then sig = Break \<and> \<not> success st' \<and> batch_file_path st' = Some oi \<and>
                 failed_output_smiles st' = failed_output_smiles st @ [(smi, oi)]
            else failed_output_smiles st' = failed_output_smiles st)"
  using assms
  by (auto simp: try_body_def Let_def emit_def observe_def sleep_def escalate_def
        create_batch_file_def new_events_def
      split: option.splits prod.splits if_splits create_outcome.splits
      dest!: read_output_loop_keeps)

lemma attempt_initial:
  assumes "attempt lib w mor d ''initial'' smi oi st = (c, st')"
  shows "(\<exists>evs. trace st' = trace st @ evs) \<and>
           (if Log (MaxOutputRetriesReached oi) \<in> set (new_events st st')
            then c = LeaveLoop \<and> \<not> success st' \<and>
                 failed_output_smiles st' = failed_output_smiles st @ [(smi, oi)]
            else failed_output_smiles st' = failed_output_smiles st)"
  using assms
  by (auto simp: attempt_def Let_def emit_def sleep_def new_events_def
      split: option.splits prod.splits if_splits signal.splits dest!: try_body_initial)

lemma retry_loop_initial:
  "retry_loop lib w mor d ''initial'' smi oi n st = (r, st') \<Longrightarrow>
     (\<exists>evs. trace st' = trace st @ evs) \<and>
     (if Log (MaxOutputRetriesReached oi) \<in> set (new_events st st')
      then r = None \<and> \<not> success st' \<and>
           failed_output_smiles st' = failed_output_smiles st @ [(smi, oi)]
      else failed_output_smiles st' = failed_output_smiles st)"
proof (induction n arbitrary: st)
  case 0
  then show ?case by (simp add: new_events_def)
next
  case (Suc n)
  obtain c st1 where a: "attempt lib w mor d ''initial'' smi oi st = (c, st1)"
    by (cases "attempt lib w mor d ''initial'' smi oi st")
  note A = attempt_initial[OF a]
  show ?case
  proof (cases c)
    case LeaveLoop
    with Suc.prems a have "st' = st1" "r = None" by simp_all
    with A LeaveLoop show ?thesis by simp
  next
    case (Propagate e)
    with Suc.prems a have "st' = st1" by simp
    with A Propagate show ?thesis by (auto split: if_splits)
  next
    case NextAttempt
    with Suc.prems a have "retry_loop lib w mor d ''initial'' smi oi n st1 = (r, st')" by simp
    note B = Suc.IH[OF this]
    from A NextAttempt obtain e1 where e1: "trace st1 = trace st @ e1"
      "Log (MaxOutputRetriesReached oi) \<notin> set e1"
      "failed_output_smiles st1 = failed_output_smiles st"
      by (auto simp: new_events_def split: if_splits)
    from B obtain e2 where e2: "trace st' = trace st1 @ e2" by auto
    from B e1 e2 show ?thesis by (auto simp: new_events_def split: if_splits)
  qed
qed

text \<open>
  C4. In the initial round, an item whose output-read loop is exhausted without success
  (the script logs "Max output retries reached" for it, line 236) is appended to
  \<open>failed_output_smiles\<close>, the work list of the second round, twice: once in the branch
  of line 238 and once more by the check after the retry loop, line 253.
\<close>

theorem read_exhaustion_appended_twice:
  assumes "process_item lib w cfg (smi, oi) st = (r, st')"
    and "round_desc cfg = ''initial''"
    and "Log (MaxOutputRetriesReached oi) \<in> set (new_events st st')"
  shows "r = None \<and> failed_output_smiles st' = failed_output_smiles st @ [(smi, oi), (smi, oi)]"
proof -
  obtain r1 st1 where l: "retry_loop lib w (max_output_retries cfg) (retry_delay cfg) ''initial''
      smi oi (max_retries cfg) (st\<lparr>success := False\<rparr>) = (r1, st1)"
    by (cases "retry_loop lib w (max_output_retries cfg) (retry_delay cfg) ''initial''
      smi oi (max_retries cfg) (st\<lparr>success := False\<rparr>)")
  note L = retry_loop_initial[OF l]
  then obtain e1 where e1: "trace st1 = trace st @ e1" by auto
  show ?thesis
  proof (cases "Log (MaxOutputRetriesReached oi) \<in> set e1")
    case True
    with L e1 have "r1 = None" "\<not> success st1"
      "failed_output_smiles st1 = failed_output_smiles st @ [(smi, oi)]"
      by (auto simp: new_events_def)
    with assms(1,2) l show ?thesis
      by (auto simp: process_item_def escalate_def emit_def sleep_def Let_def)
  next
    case False
    with assms l e1 show ?thesis
      by (auto simp: process_item_def escalate_def emit_def sleep_def Let_def new_events_def
          split: option.splits if_splits)
  qed
qed

theorem read_exhaustion_appended_twice_witness:
  "round_desc initial_config = ''initial'' \<and>
   Log (MaxOutputRetriesReached 0) \<in> set (new_events (enter fresh)
      (snd (process_item rdkit_all tool_silent initial_config (''CCO'', 0) (enter fresh)))) \<and>
   fst (process_item rdkit_all tool_silent initial_config (''CCO'', 0) (enter fresh)) = None \<and>
   failed_output_smiles
      (snd (process_item rdkit_all tool_silent initial_config (''CCO'', 0) (enter fresh))) =
     [(''CCO'', 0), (''CCO'', 0)]"
proof -
  have h1: "process_item rdkit_all tool_silent initial_config (''CCO'', 0) (enter fresh) =
      (fst (process_item rdkit_all tool_silent initial_config (''CCO'', 0) (enter fresh)),
       snd (process_item rdkit_all tool_silent initial_config (''CCO'', 0) (enter fresh)))"
    by simp
  have h2: "round_desc initial_config = ''initial''"
    by (simp add: initial_config_def)
  have h3: "Log (MaxOutputRetriesReached 0) \<in> set (new_events (enter fresh)
      (snd (process_item rdkit_all tool_silent initial_config (''CCO'', 0) (enter fresh))))"
    by code_simp
  have h4: "failed_output_smiles (enter fresh) = []"
    by (simp add: enter_def)
  from read_exhaustion_appended_twice[OF h1 h2 h3] h2 h3 h4 show ?thesis
    by simp
qed

section \<open>Properties of the remote property fetch\<close>
























section \<open>Properties of the result assembler\<close>

lemma place_results_ok:
  "\<forall>(df, i) \<in> set hsp. i < length ord \<Longrightarrow>
     \<exists>ord'. place_results hsp ord = Inr ord' \<and> length ord' = length ord \<and>
       (\<forall>i < length ord. ord' ! i =
          (case map_of (rev (map (\<lambda>(df, i). (i, df)) hsp)) i of
             None \<Rightarrow> ord ! i | Some df \<Rightarrow> Some df))"
proof (induction hsp arbitrary: ord)
  case Nil
  then show ?case by simp
next
  case (Cons a hsp)
  obtain df k where a: "a = (df, k)" by (cases a)
  with Cons.prems have k: "k < length ord" and
    r: "\<forall>(d, i) \<in> set hsp. i < length (ord[k := Some df])" by auto
  from Cons.IH[OF r] obtain ord' where
    o: "place_results hsp (ord[k := Some df]) = Inr ord'" "length ord' = length ord"
       "\<forall>i < length ord. ord' ! i =
          (case map_of (rev (map (\<lambda>(df, i). (i, df)) hsp)) i of
             None \<Rightarrow> (ord[k := Some df]) ! i | Some df \<Rightarrow> Some df)"
    by auto
  show ?case
    using a k o
    by (auto simp: nth_list_update map_add_def split: option.splits)
qed

lemma ordered_table_ok:
  assumes "\<forall>(df, i) \<in> set hsp. i < length original_smiles" and "original_smiles \<noteq> []"
  shows "\<exists>t. ordered_table hsp original_smiles = Inr t \<and> length t = length original_smiles \<and>
           map fst t = original_smiles \<and>
           (\<forall>i < length original_smiles. snd (t ! i) =
              (case map_of (rev (map (\<lambda>(df, i). (i, df)) hsp)) i of
                 None \<Rightarrow> empty_df | Some df \<Rightarrow> df))"
proof -
  from assms(1) have "\<forall>(df, i) \<in> set hsp. i < length (replicate (length original_smiles) (None :: hsp_df option))"
    by simp
  from place_results_ok[OF this] obtain ord' where
    o: "place_results hsp (replicate (length original_smiles) None) = Inr ord'"
       "length ord' = length original_smiles"
    and o3: "\<forall>i < length original_smiles. ord' ! i =
          (case map_of (rev (map (\<lambda>(df, i). (i, df)) hsp)) i of
             None \<Rightarrow> replicate (length original_smiles) None ! i | Some df \<Rightarrow> Some df)"
    by auto
  have o4: "ord' ! i = map_of (rev (map (\<lambda>(df, i). (i, df)) hsp)) i"
    if "i < length original_smiles" for i
    using o3 that by (auto split: option.splits)
  from o(2) assms(2) have ne: "final_dfs ord' \<noteq> []" by (auto simp: final_dfs_def)
  have "ordered_table hsp original_smiles = Inr (zip original_smiles (final_dfs ord'))"
    using o(1) ne by (simp add: ordered_table_def)
  moreover have "length (final_dfs ord') = length original_smiles"
    using o(2) by (simp add: final_dfs_def)
  ultimately show ?thesis
    using o(2) o4 by (auto simp: final_dfs_def split: option.splits)
qed


lemma ordered_table_assemble:
  assumes "\<forall>(df, i) \<in> set hsp. i < length original_smiles" and "original_smiles \<noteq> []"
  shows "ordered_table hsp original_smiles = Inr (assemble hsp original_smiles)"
proof -
  from ordered_table_ok[OF assms] obtain t where
    t: "ordered_table hsp original_smiles = Inr t" "length t = length original_smiles"
       "map fst t = original_smiles"
       "\<forall>i < length original_smiles. snd (t ! i) =
              (case map_of (rev (map (\<lambda>(df, i). (i, df)) hsp)) i of
                 None \<Rightarrow> empty_df | Some df \<Rightarrow> df)"
    by blast
  have "t = assemble hsp original_smiles"
  proof (rule nth_equalityI)
    show "length t = length (assemble hsp original_smiles)"
      using t(2) by (simp add: assemble_def)
  next
    fix i assume i: "i < length t"
    with t(3) have "fst (t ! i) = original_smiles ! i"
      by (metis nth_map)
    with i t(2,4) show "t ! i = assemble hsp original_smiles ! i"
      by (simp add: assemble_def prod_eq_iff)
  qed
  with t(1) show ?thesis by simp
qed

lemma assemble_empty: "assemble [] original_smiles = map (\<lambda>smi. (smi, empty_df)) original_smiles"
  by (auto simp: assemble_def intro: nth_equalityI)

lemma map_of_rev_in:
  "map_of (rev (map (\<lambda>(df, i). (i, df)) hsp)) i = Some df \<Longrightarrow> (df, i) \<in> set hsp"
  by (auto dest!: map_of_SomeD)

lemma map_of_rev_none:
  "map_of (rev (map (\<lambda>(df, i). (i, df)) hsp)) i = None \<longleftrightarrow> i \<notin> snd ` set hsp"
  by (force simp: map_of_eq_None_iff image_iff)

text \<open>
  C3. For an input of N rows and partial results whose indices are positions of the
  input, the final assembly (lines 303-356) writes the table of the Result Assembler's
  contract, and so does the checkpoint writer (lines 88-113) when N is not zero: the
  table has exactly N rows, row \<open>i\<close> is for original index \<open>i\<close> and carries the raw identifier
  of that position; it holds a real record of that index when there is one and the
  placeholder otherwise, and the placeholder has the 61 columns of the schema, all
  missing.
\<close>

theorem assembled_table_one_row_per_index:
  assumes "\<forall>(df, i) \<in> set hsp. i < length original_smiles"
  shows "final_results timestamp hsp original_smiles =
           Inr [(''all_HSP_'' @ timestamp @ (if hsp = [] then ''_empty'' else []) @ ''.csv'',
                 assemble hsp original_smiles),
                (''all_HSP_'' @ timestamp @ (if hsp = [] then ''_empty'' else []) @ ''.xlsx'',
                 assemble hsp original_smiles)] \<and>
         (original_smiles \<noteq> [] \<longrightarrow>
            ordered_table hsp original_smiles = Inr (assemble hsp original_smiles)) \<and>
         length (assemble hsp original_smiles) = length original_smiles \<and>
         map fst (assemble hsp original_smiles) = original_smiles \<and>
         (\<forall>i < length original_smiles.
            if i \<in> snd ` set hsp
            then (snd (assemble hsp original_smiles ! i), i) \<in> set hsp
            else snd (assemble hsp original_smiles ! i) = empty_df) \<and>
         map fst empty_df = hsp_columns \<and> length hsp_columns = 61 \<and>
         (\<forall>c \<in> set empty_df. snd c = NaN)"
proof (intro conjI)
  show "final_results timestamp hsp original_smiles =
           Inr [(''all_HSP_'' @ timestamp @ (if hsp = [] then ''_empty'' else []) @ ''.csv'',
                 assemble hsp original_smiles),
                (''all_HSP_'' @ timestamp @ (if hsp = [] then ''_empty'' else []) @ ''.xlsx'',
                 assemble hsp original_smiles)]"
  proof (cases "hsp = []")
    case True
    then show ?thesis by (simp add: final_results_def assemble_empty Let_def)
  next
    case False
    then obtain df i where "(df, i) \<in> set hsp" by (cases hsp) auto
    with assms have "original_smiles \<noteq> []" by auto
    from ordered_table_assemble[OF assms this] False show ?thesis
      by (simp add: final_results_def)
  qed
next
  show "original_smiles \<noteq> [] \<longrightarrow>
            ordered_table hsp original_smiles = Inr (assemble hsp original_smiles)"
    using ordered_table_assemble[OF assms] by blast
next
  show "length (assemble hsp original_smiles) = length original_smiles"
    by (simp add: assemble_def)
next
  show "map fst (assemble hsp original_smiles) = original_smiles"
    by (auto simp: assemble_def intro: nth_equalityI)
next
  show "\<forall>i < length original_smiles.
            if i \<in> snd ` set hsp
            then (snd (assemble hsp original_smiles ! i), i) \<in> set hsp
            else snd (assemble hsp original_smiles ! i) = empty_df"
  proof (intro allI impI)
    fix i assume i: "i < length original_smiles"
    show "if i \<in> snd ` set hsp
            then (snd (assemble hsp original_smiles ! i), i) \<in> set hsp
            else snd (assemble hsp original_smiles ! i) = empty_df"
    proof (cases "map_of (rev (map (\<lambda>(df, i). (i, df)) hsp)) i")
      case None
      with i show ?thesis
        using map_of_rev_none[of hsp i] by (simp add: assemble_def)
    next
      case (Some df)
      with i show ?thesis
        using map_of_rev_none[of hsp i] map_of_rev_in[of hsp i df] by (simp add: assemble_def)
    qed
  qed
next
  show "map fst empty_df = hsp_columns" by (simp add: empty_df_def comp_def)
next
  show "length hsp_columns = 61" by (simp add: hsp_columns_def)
next
  show "\<forall>c \<in> set empty_df. snd c = NaN" by (auto simp: empty_df_def)
qed


theorem assembled_table_one_row_per_index_witness:
  "final_results ''T'' [(example_row, 1)] [''CCO'', ''C''] =
     Inr [(''all_HSP_T.csv'', [(''CCO'', empty_df), (''C'', example_row)]),
          (''all_HSP_T.xlsx'', [(''CCO'', empty_df), (''C'', example_row)])] \<and>
   ordered_table [(example_row, 1)] [''CCO'', ''C''] =
     Inr [(''CCO'', empty_df), (''C'', example_row)]"
proof -
  have h: "\<forall>(df, i) \<in> set [(example_row, 1)]. i < length [''CCO'', ''C'']"
    by simp
  have a: "assemble [(example_row, 1)] [''CCO'', ''C''] = [(''CCO'', empty_df), (''C'', example_row)]"
    by (simp add: assemble_def upt_rec)
  from assembled_table_one_row_per_index[OF h, of "''T''"] a show ?thesis
    by simp
qed

section \<open>Properties of the identifier validator\<close>

lemma validate_loop_eq:
  "i + length rest \<le> length idx \<Longrightarrow>
     validate_loop lib idx i rest (invalid, valid) =
       Inr (invalid @ map snd (filter (\<lambda>(smi, k). \<not> parses lib smi) (zip rest (drop i idx))),
            valid @ filter (\<lambda>(smi, k). parses lib smi) (zip rest (drop i idx)))"
proof (induction rest arbitrary: i invalid valid)
  case Nil
  then show ?case by simp
next
  case (Cons smi rest)
  then have i: "i < length idx" and r: "Suc i + length rest \<le> length idx" by simp_all
  from i have d: "drop i idx = idx ! i # drop (Suc i) idx"
    by (simp add: Cons_nth_drop_Suc)
  show ?case
    using i Cons.IH[OF r] d
    by (cases "MolFromSmiles lib smi") (simp_all add: parses_def)
qed

lemma zip_filtered:
  "zip (filter P xs) (map fst (filter (\<lambda>(i, smi). P smi) (enumerate n xs))) =
   map (\<lambda>(i, smi). (smi, i)) (filter (\<lambda>(i, smi). P smi) (enumerate n xs))"
  by (induction xs arbitrary: n) auto

lemma length_valid_indices:
  "length (valid_smiles_indices xs) = length (filtered_smiles xs)"
proof -
  have "length (map fst (filter (\<lambda>(i, smi). P smi) (enumerate n xs))) = length (filter P xs)"
    for P :: "string \<Rightarrow> bool" and n
    by (induction xs arbitrary: n) auto
  then show ?thesis by (simp add: valid_smiles_indices_def filtered_smiles_def)
qed

lemma validate_all:
  "validate_loop lib (valid_smiles_indices xs) 0 (filtered_smiles xs) ([], []) =
     Inr (map fst (filter (\<lambda>(i, smi). smi \<noteq> ''CAS number not found'' \<and> \<not> parses lib smi)
                     (enumerate 0 xs)),
          map (\<lambda>(i, smi). (smi, i))
            (filter (\<lambda>(i, smi). smi \<noteq> ''CAS number not found'' \<and> parses lib smi)
               (enumerate 0 xs)))"
proof -
  have z: "zip (filtered_smiles xs) (valid_smiles_indices xs) =
     map (\<lambda>(i, smi). (smi, i)) (filter (\<lambda>(i, smi). smi \<noteq> ''CAS number not found'') (enumerate 0 xs))"
    unfolding filtered_smiles_def valid_smiles_indices_def by (rule zip_filtered)
  have "0 + length (filtered_smiles xs) \<le> length (valid_smiles_indices xs)"
    by (simp add: length_valid_indices)
  from validate_loop_eq[OF this, of lib "[]" "[]"] show ?thesis
    by (simp add: z filter_map comp_def case_prod_unfold)
qed


lemma final_results_assemble:
  assumes "\<forall>(df, i) \<in> set hsp. i < length original_smiles"
  shows "final_results timestamp hsp original_smiles =
           Inr [(''all_HSP_'' @ timestamp @ (if hsp = [] then ''_empty'' else []) @ ''.csv'',
                 assemble hsp original_smiles),
                (''all_HSP_'' @ timestamp @ (if hsp = [] then ''_empty'' else []) @ ''.xlsx'',
                 assemble hsp original_smiles)]"
proof (cases "hsp = []")
  case True
  then show ?thesis by (simp add: final_results_def assemble_empty Let_def)
next
  case False
  then obtain df i where "(df, i) \<in> set hsp" by (cases hsp) auto
  with assms have "original_smiles \<noteq> []" by auto
  from ordered_table_assemble[OF assms this] False show ?thesis
    by (simp add: final_results_def)
qed

lemma map_fst_assemble: "map fst (assemble hsp original_smiles) = original_smiles"
  by (auto simp: assemble_def intro: nth_equalityI)

lemma validate_ignores_sentinel:
  "validate_loop (lib\<lparr>MolFromSmiles := (MolFromSmiles lib)(''CAS number not found'' := p)\<rparr>)
      (valid_smiles_indices xs) 0 (filtered_smiles xs) ([], []) =
   validate_loop lib (valid_smiles_indices xs) 0 (filtered_smiles xs) ([], [])"
proof -
  have "(smi \<noteq> ''CAS number not found'' \<and>
         parses (lib\<lparr>MolFromSmiles := (MolFromSmiles lib)(''CAS number not found'' := p)\<rparr>) smi) =
        (smi \<noteq> ''CAS number not found'' \<and> parses lib smi)" for smi
    by (auto simp: parses_def)
  moreover have "(smi \<noteq> ''CAS number not found'' \<and>
         \<not> parses (lib\<lparr>MolFromSmiles := (MolFromSmiles lib)(''CAS number not found'' := p)\<rparr>) smi) =
        (smi \<noteq> ''CAS number not found'' \<and> \<not> parses lib smi)" for smi
    by (auto simp: parses_def)
  ultimately show ?thesis
    by (simp add: validate_all)
qed

lemma in_enumerated:
  "i \<in> set (map fst (filter (\<lambda>(i, smi). P smi) (enumerate 0 xs))) \<longleftrightarrow>
     i < length xs \<and> P (xs ! i)"
  by (auto simp: in_set_enumerate_eq image_iff)

lemma in_enumerated_pair:
  "(smi, i) \<in> set (map (\<lambda>(i, smi). (smi, i)) (filter (\<lambda>(i, smi). P smi) (enumerate 0 xs))) \<longleftrightarrow>
     i < length xs \<and> xs ! i = smi \<and> P smi"
  by (auto simp: in_set_enumerate_eq image_iff)

text \<open>
  The sentinel \<open>CAS number not found\<close> is taken out (lines 144-146) before the
  validation loop parses anything: the loop's result does not depend on what the parser
  would answer for the sentinel, the sentinel is in neither the list that is parsed nor
  the work list handed to the tool, and its positions are in \<open>invalid_cas_indices\<close> and
  never in \<open>invalid_smiles_indices\<close>; every other position goes to the work list when it
  parses and to \<open>invalid_smiles_indices\<close> when it does not.
\<close>

lemma sentinel_routing:
  "\<exists>invalid valid.
     validate_loop lib (valid_smiles_indices xs) 0 (filtered_smiles xs) ([], []) =
       Inr (invalid, valid) \<and>
     validate_loop (lib\<lparr>MolFromSmiles := (MolFromSmiles lib)(''CAS number not found'' := p)\<rparr>)
       (valid_smiles_indices xs) 0 (filtered_smiles xs) ([], []) = Inr (invalid, valid) \<and>
     ''CAS number not found'' \<notin> set (filtered_smiles xs) \<and>
     ''CAS number not found'' \<notin> fst ` set valid \<and>
     (\<forall>i < length xs.
        (xs ! i = ''CAS number not found'' \<longrightarrow>
           i \<in> set (invalid_cas_indices xs) \<and> i \<notin> set invalid \<and> i \<notin> snd ` set valid) \<and>
        (xs ! i \<noteq> ''CAS number not found'' \<and> parses lib (xs ! i) \<longrightarrow>
           (xs ! i, i) \<in> set valid \<and> i \<notin> set invalid \<and> i \<notin> set (invalid_cas_indices xs)) \<and>
        (xs ! i \<noteq> ''CAS number not found'' \<and> \<not> parses lib (xs ! i) \<longrightarrow>
           i \<in> set invalid \<and> i \<notin> snd ` set valid \<and> i \<notin> set (invalid_cas_indices xs)))"
proof -
  let ?S = "''CAS number not found''"
  let ?invalid = "map fst (filter (\<lambda>(i, smi). smi \<noteq> ?S \<and> \<not> parses lib smi) (enumerate 0 xs))"
  let ?valid = "map (\<lambda>(i, smi). (smi, i))
            (filter (\<lambda>(i, smi). smi \<noteq> ?S \<and> parses lib smi) (enumerate 0 xs))"
  have 1: "validate_loop lib (valid_smiles_indices xs) 0 (filtered_smiles xs) ([], []) =
       Inr (?invalid, ?valid)"
    by (rule validate_all)
  have 2: "validate_loop (lib\<lparr>MolFromSmiles := (MolFromSmiles lib)(?S := p)\<rparr>)
       (valid_smiles_indices xs) 0 (filtered_smiles xs) ([], []) = Inr (?invalid, ?valid)"
    by (simp only: validate_ignores_sentinel 1)
  have 3: "?S \<notin> set (filtered_smiles xs)"
    by (simp add: filtered_smiles_def)
  have 4: "?S \<notin> fst ` set ?valid"
  proof
    assume "?S \<in> fst ` set ?valid"
    then obtain i where "(?S, i) \<in> set ?valid" by force
    then show False by (simp only: in_enumerated_pair) simp
  qed
  have 5: "\<forall>i < length xs.
        (xs ! i = ?S \<longrightarrow>
           i \<in> set (invalid_cas_indices xs) \<and> i \<notin> set ?invalid \<and> i \<notin> snd ` set ?valid) \<and>
        (xs ! i \<noteq> ?S \<and> parses lib (xs ! i) \<longrightarrow>
           (xs ! i, i) \<in> set ?valid \<and> i \<notin> set ?invalid \<and> i \<notin> set (invalid_cas_indices xs)) \<and>
        (xs ! i \<noteq> ?S \<and> \<not> parses lib (xs ! i) \<longrightarrow>
           i \<in> set ?invalid \<and> i \<notin> snd ` set ?valid \<and> i \<notin> set (invalid_cas_indices xs))"
  proof (intro allI impI)
    fix i assume i: "i < length xs"
    have a: "i \<in> set (invalid_cas_indices xs) \<longleftrightarrow> xs ! i = ?S"
      unfolding invalid_cas_indices_def using i by (simp only: in_enumerated) simp
    have b: "i \<in> set ?invalid \<longleftrightarrow> xs ! i \<noteq> ?S \<and> \<not> parses lib (xs ! i)"
      using i by (simp only: in_enumerated) simp
    have c: "(smi, i) \<in> set ?valid \<longleftrightarrow> xs ! i = smi \<and> smi \<noteq> ?S \<and> parses lib smi" for smi
      using i by (simp only: in_enumerated_pair) simp
    have d: "i \<in> snd ` set ?valid \<longleftrightarrow> (\<exists>smi. (smi, i) \<in> set ?valid)"
      by (metis (no_types, lifting) image_iff prod.collapse snd_conv)
    show "(xs ! i = ?S \<longrightarrow>
           i \<in> set (invalid_cas_indices xs) \<and> i \<notin> set ?invalid \<and> i \<notin> snd ` set ?valid) \<and>
        (xs ! i \<noteq> ?S \<and> parses lib (xs ! i) \<longrightarrow>
           (xs ! i, i) \<in> set ?valid \<and> i \<notin> set ?invalid \<and> i \<notin> set (invalid_cas_indices xs)) \<and>
        (xs ! i \<noteq> ?S \<and> \<not> parses lib (xs ! i) \<longrightarrow>
           i \<in> set ?invalid \<and> i \<notin> snd ` set ?valid \<and> i \<notin> set (invalid_cas_indices xs))"
      unfolding a b d c by blast
  qed
  show ?thesis
    apply (rule exI[of _ ?invalid])
    apply (rule exI[of _ ?valid])
    apply (intro conjI)
        apply (rule 1)
       apply (rule 2)
      apply (rule 3)
     apply (rule 4)
    apply (rule 5)
    done
qed

text \<open>
  C9. The script run on \<open>["CCO", "not a molecule", "CAS number not found"]\<close>, with an
  RDKit that rejects \<open>not a molecule\<close> and a tool that succeeds at once. The routing is
  the claimed one: position 2 is in \<open>invalid_cas_indices\<close>, position 1 in
  \<open>invalid_smiles_indices\<close>, and \<open>CCO\<close> alone is canonicalized and sent to the tool.
  But the script then stops at line 288 with \<open>NameError\<close>: the final table of lines
  303-356 is never written, and the only files are the checkpoint of the initial round,
  which holds the three rows in input order.
\<close>

theorem sentinel_scenario_no_final_table:
  "fst (main rdkit_strict tool_ok ''T'' [''CCO'', ''not a molecule'', ''CAS number not found'']) =
     Some (NameError ''failed_output_smiles'') \<and>
   invalid_cas_indices [''CCO'', ''not a molecule'', ''CAS number not found''] = [2] \<and>
   invalid_smiles_indices
     (snd (main rdkit_strict tool_ok ''T'' [''CCO'', ''not a molecule'', ''CAS number not found''])) =
     [1] \<and>
   trace (snd (main rdkit_strict tool_ok ''T'' [''CCO'', ''not a molecule'', ''CAS number not found''])) =
     [Canonicalize ''CCO'', CreateScript 0 ''CCO'' Created, RunScript 0 True,
      ReadOutput (OutRow example_row), Log (SuccessfullyProcessed 0), RemoveScript 0,
      ClearClipboard, Sleep 2] \<and>
   files (snd (main rdkit_strict tool_ok ''T'' [''CCO'', ''not a molecule'', ''CAS number not found''])) =
     [(''intermediate_HSP_T.csv'',
       [(''CCO'', example_row), (''not a molecule'', empty_df), (''CAS number not found'', empty_df)]),
      (''intermediate_HSP_T.xlsx'',
       [(''CCO'', example_row), (''not a molecule'', empty_df), (''CAS number not found'', empty_df)])]"
  by code_simp

section \<open>Properties of the retry loop, the cleanup and the rounds\<close>

lemma new_events_append [simp]: "trace st' = trace st @ evs \<Longrightarrow> new_events st st' = evs"
  by (simp add: new_events_def)

lemma read_output_loop_events:
  "read_output_loop w d oi n st = (r, st') \<Longrightarrow>
     (\<exists>evs. trace st' = trace st @ evs) \<and>
     set (new_events st st') \<subseteq> {e. is_read e} \<union> {Sleep d, Log (SuccessfullyProcessed oi)} \<and>
     length (filter is_read (new_events st st')) \<le> n \<and>
     count_list (new_events st st') (Sleep d) = length (filter is_failed_read (new_events st st')) \<and>
     length (filter is_outer_exception (new_events st st')) = (if r = None then 0 else 1) \<and>
     (if Log (SuccessfullyProcessed oi) \<in> set (new_events st st')
      then r = None \<and> success st' \<and>
           (\<exists>pre df. new_events st st' = pre @ [ReadOutput (OutRow df), Log (SuccessfullyProcessed oi)] \<and>
              all_hsp_full st' = all_hsp_full st @ [(df, oi)])
      else success st' = success st \<and> all_hsp_full st' = all_hsp_full st)"
proof (induction n arbitrary: st)
  case 0
  then show ?case by (simp add: new_events_def)
next
  case (Suc n)
  show ?case
  proof (cases "out_at w (clock st)")
    case OutAbsent
    let ?s = "sleep d (observe (ReadOutput OutAbsent) st)"
    from OutAbsent Suc.prems have "read_output_loop w d oi n ?s = (r, st')"
      by simp
    note I = Suc.IH[OF this]
    then obtain evs where e: "trace st' = trace ?s @ evs" by blast
    then have e': "trace st' = trace st @ ([ReadOutput OutAbsent, Sleep d] @ evs)"
      by (simp add: observe_def emit_def sleep_def)
    have n1: "new_events ?s st' = evs" using e by simp
    have n2: "new_events st st' = [ReadOutput OutAbsent, Sleep d] @ evs" using e' by (rule new_events_append)
    from I show ?thesis
      unfolding n1 n2 using e'
      by (auto simp: observe_def emit_def sleep_def split: if_splits)
  next
    case OutUnreadable
    let ?s = "sleep d (observe (ReadOutput OutUnreadable) st)"
    from OutUnreadable Suc.prems have "read_output_loop w d oi n ?s = (r, st')"
      by simp
    note I = Suc.IH[OF this]
    then obtain evs where e: "trace st' = trace ?s @ evs" by blast
    then have e': "trace st' = trace st @ ([ReadOutput OutUnreadable, Sleep d] @ evs)"
      by (simp add: observe_def emit_def sleep_def)
    have n1: "new_events ?s st' = evs" using e by simp
    have n2: "new_events st st' = [ReadOutput OutUnreadable, Sleep d] @ evs" using e' by (rule new_events_append)
    from I show ?thesis
      unfolding n1 n2 using e'
      by (auto simp: observe_def emit_def sleep_def split: if_splits)
  next
    case OutStatRaises
    with Suc.prems show ?thesis by (auto simp: observe_def emit_def sleep_def new_events_def)
  next
    case (OutRow df)
    with Suc.prems show ?thesis by (auto simp: observe_def emit_def sleep_def new_events_def)
  qed
qed


lemma try_body_events:
  assumes "try_body lib w mor d rd smi oi st = (sig, st')"
  shows "(\<exists>evs. trace st' = trace st @ evs) \<and>
     count_list (new_events st st') (Canonicalize smi) = 1 \<and>
     count_list (new_events st st') (Log (ErrorProcessing oi)) = 0 \<and>
     (\<forall>p. RemoveScript p \<notin> set (new_events st st')) \<and>
     length (filter is_outer_exception (new_events st st')) = (if sig = Break then 0 else 1) \<and>
     count_list (new_events st st') (RunScript oi True) +
       count_list (new_events st st') (RunScript oi False) \<le> 1 \<and>
     length (filter is_read (new_events st st')) \<le>
       mor * count_list (new_events st st') (RunScript oi True) \<and>
     count_list (new_events st st') (Sleep d) = length (filter is_failed_read (new_events st st')) \<and>
     (if Log (SuccessfullyProcessed oi) \<in> set (new_events st st')
      then sig = Break \<and> success st' \<and> batch_file_path st' = Some oi \<and> oi \<in> scripts st' \<and>
           (\<exists>pre df. new_events st st' = pre @ [ReadOutput (OutRow df), Log (SuccessfullyProcessed oi)] \<and>
              all_hsp_full st' = all_hsp_full st @ [(df, oi)])
      else success st' = success st \<and> all_hsp_full st' = all_hsp_full st) \<and>
     (sig \<noteq> Break \<longrightarrow>
        batch_file_path st' = Some oi \<and>
        failed_output_smiles st' = failed_output_smiles st \<and>
        invalid_smiles_indices st' = invalid_smiles_indices st \<and>
        Log (MaxOutputRetriesReached oi) \<notin> set (new_events st st') \<and>
        Log (SuccessfullyProcessed oi) \<notin> set (new_events st st'))"
proof (cases "canonicalize_smiles lib smi")
  case None
  with assms show ?thesis
    by (auto simp: try_body_def Let_def emit_def new_events_def)
next
  case (Some canon)
  let ?s1 = "(emit (Canonicalize smi) st)\<lparr>batch_file_path := Some oi\<rparr>"
  show ?thesis
  proof (cases "create_at w (clock st)")
    case (CreateRaises left)
    with Some assms show ?thesis
      by (cases left)
         (auto simp: try_body_def Let_def emit_def observe_def create_batch_file_def new_events_def)
  next
    case Created
    let ?s2 = "(observe (CreateScript oi canon Created) ?s1)\<lparr>scripts := insert oi (scripts st)\<rparr>"
    have c: "create_batch_file w canon oi ?s1 = (None, ?s2)"
      using Created by (simp add: create_batch_file_def Let_def observe_def emit_def)
    show ?thesis
    proof (cases "run_at w (clock ?s2)")
      case False
      with Some c assms show ?thesis
        by (auto simp: try_body_def Let_def emit_def observe_def new_events_def)
    next
      case True
      let ?s3 = "observe (RunScript oi True) ?s2"
      obtain r st3 where rl: "read_output_loop w d oi mor ?s3 = (r, st3)"
        by (cases "read_output_loop w d oi mor ?s3")
      note R = read_output_loop_events[OF rl]
      then obtain evs where e: "trace st3 = trace ?s3 @ evs" by blast
      have n3: "new_events ?s3 st3 = evs" using e by simp
      have t3: "trace ?s3 = trace st @ [Canonicalize smi, CreateScript oi canon Created, RunScript oi True]"
        by (simp add: observe_def emit_def)
      note R' = R[unfolded n3]
      from R' have z: "count_list evs (Canonicalize smi) = 0"
        "count_list evs (Log (ErrorProcessing oi)) = 0"
        "count_list evs (RunScript oi True) = 0" "count_list evs (RunScript oi False) = 0"
        "\<forall>p. RemoveScript p \<notin> set evs"
        by (auto simp: count_list_0_iff)
      show ?thesis
      proof (cases r)
        case (Some ex)
        with rl Some True c \<open>canonicalize_smiles lib smi = Some canon\<close> assms
        have "sig = Raised ex" "st' = st3"
          by (auto simp: try_body_def Let_def)
        moreover from this e t3 have "new_events st st' =
            [Canonicalize smi, CreateScript oi canon Created, RunScript oi True] @ evs"
          by simp
        ultimately show ?thesis
          using R' z Some e t3 read_output_loop_keeps[OF rl]
          by (auto simp: observe_def emit_def split: if_splits)
      next
        case None
        show ?thesis
        proof (cases "success st3")
          case True
          with rl None \<open>run_at w (clock ?s2)\<close> c \<open>canonicalize_smiles lib smi = Some canon\<close> assms
          have "sig = Break" "st' = st3"
            by (auto simp: try_body_def Let_def)
          moreover from this e t3 have "new_events st st' =
            [Canonicalize smi, CreateScript oi canon Created, RunScript oi True] @ evs"
            by simp
          ultimately show ?thesis
            using R' z None e t3 read_output_loop_keeps[OF rl]
            apply (auto simp: observe_def emit_def split: if_splits)
            done
        next
          case False
          with rl None \<open>run_at w (clock ?s2)\<close> c \<open>canonicalize_smiles lib smi = Some canon\<close> assms
          have "sig = Break" "st' = escalate rd smi oi (emit (Log (MaxOutputRetriesReached oi)) st3)"
            by (auto simp: try_body_def Let_def)
          moreover from this e t3 have "new_events st st' =
            [Canonicalize smi, CreateScript oi canon Created, RunScript oi True] @ evs @
              [Log (MaxOutputRetriesReached oi)]"
            by (simp add: escalate_def emit_def new_events_def)
          ultimately show ?thesis
            using R' z None e t3 False read_output_loop_keeps[OF rl]
            apply (auto simp: observe_def emit_def escalate_def split: if_splits)
            done
        qed
      qed
    qed
  qed
qed


lemma attempt_events:
  assumes "attempt lib w mor d rd smi oi st = (c, st')"
  shows "(\<exists>evs. trace st' = trace st @ evs) \<and>
     count_list (new_events st st') (Canonicalize smi) = 1 \<and>
     count_list (new_events st st') (Log (ErrorProcessing oi)) = (if c = NextAttempt then 1 else 0) \<and>
     length (filter is_outer_exception (new_events st st')) = (if c = NextAttempt then 1 else 0) \<and>
     count_list (new_events st st') (RunScript oi True) +
       count_list (new_events st st') (RunScript oi False) \<le> 1 \<and>
     length (filter is_read (new_events st st')) \<le>
       mor * count_list (new_events st st') (RunScript oi True) \<and>
     count_list (new_events st st') (Sleep d) =
       (if c = NextAttempt then 1 else 0) + length (filter is_failed_read (new_events st st')) \<and>
     (if Log (SuccessfullyProcessed oi) \<in> set (new_events st st')
      then c = LeaveLoop \<and> success st' \<and>
           (\<exists>pre df. new_events st st' =
               pre @ [ReadOutput (OutRow df), Log (SuccessfullyProcessed oi), RemoveScript oi] \<and>
              all_hsp_full st' = all_hsp_full st @ [(df, oi)])
      else success st' = success st \<and> all_hsp_full st' = all_hsp_full st) \<and>
     (c = NextAttempt \<longrightarrow>
        failed_output_smiles st' = failed_output_smiles st \<and>
        invalid_smiles_indices st' = invalid_smiles_indices st \<and>
        Log (MaxOutputRetriesReached oi) \<notin> set (new_events st st') \<and>
        Log (SuccessfullyProcessed oi) \<notin> set (new_events st st'))"
proof -
  obtain sig st1 where tb: "try_body lib w mor d rd smi oi st = (sig, st1)"
    by (cases "try_body lib w mor d rd smi oi st")
  note T = try_body_events[OF tb]
  then obtain E where E: "trace st1 = trace st @ E" by blast
  have n1: "new_events st st1 = E" using E by simp
  note T' = T[unfolded n1]
  show ?thesis
  proof (cases sig)
    case (Raised ex)
    let ?s2 = "sleep d (emit (Log (ErrorProcessing oi)) st1)"
    from T' Raised have b: "batch_file_path st1 = Some oi" by simp
    show ?thesis
    proof (cases "oi \<in> scripts st1")
      case True
      with tb Raised b assms have "c = NextAttempt"
        "st' = (emit (RemoveScript oi) ?s2)\<lparr>scripts := scripts ?s2 - {oi}\<rparr>"
        by (auto simp: attempt_def Let_def sleep_def emit_def)
      moreover from this E have "new_events st st' =
          E @ [Log (ErrorProcessing oi), Sleep d, RemoveScript oi]"
        by (simp add: sleep_def emit_def new_events_def)
      ultimately show ?thesis
        using T' Raised E by (auto simp: sleep_def emit_def)
    next
      case False
      with tb Raised b assms have "c = NextAttempt" "st' = ?s2"
        by (auto simp: attempt_def Let_def sleep_def emit_def)
      moreover from this E have "new_events st st' = E @ [Log (ErrorProcessing oi), Sleep d]"
        by (simp add: sleep_def emit_def new_events_def)
      ultimately show ?thesis
        using T' Raised E by (auto simp: sleep_def emit_def)
    qed
  next
    case Break
    show ?thesis
    proof (cases "batch_file_path st1")
      case None
      with tb Break assms have "c = Propagate (UnboundLocalError ''batch_file_path'')" "st' = st1"
        by (auto simp: attempt_def Let_def)
      moreover from this E have "new_events st st' = E" by simp
      ultimately show ?thesis
        using T' Break E None by (auto split: if_splits)
    next
      case (Some p)
      show ?thesis
      proof (cases "p \<in> scripts st1")
        case True
        with tb Break Some assms have "c = LeaveLoop"
          "st' = (emit (RemoveScript p) st1)\<lparr>scripts := scripts st1 - {p}\<rparr>"
          by (auto simp: attempt_def Let_def emit_def)
        moreover from this E have "new_events st st' = E @ [RemoveScript p]"
          by (simp add: emit_def new_events_def)
        ultimately show ?thesis
          using T' Break E Some by (auto simp: emit_def split: if_splits)
      next
        case False
        with tb Break Some assms have "c = LeaveLoop" "st' = st1"
          by (auto simp: attempt_def Let_def)
        moreover from this E have "new_events st st' = E" by simp
        ultimately show ?thesis
          using T' Break E Some False by (auto split: if_splits)
      qed
    qed
  qed
qed


lemma retry_loop_events:
  "retry_loop lib w mor d rd smi oi n st = (r, st') \<Longrightarrow>
     (\<exists>evs. trace st' = trace st @ evs) \<and>
     count_list (new_events st st') (Canonicalize smi) \<le> n \<and>
     count_list (new_events st st') (Log (ErrorProcessing oi)) =
       length (filter is_outer_exception (new_events st st')) \<and>
     count_list (new_events st st') (Log (ErrorProcessing oi)) \<le>
       count_list (new_events st st') (Canonicalize smi) \<and>
     count_list (new_events st st') (Canonicalize smi) \<le>
       count_list (new_events st st') (Log (ErrorProcessing oi)) + 1 \<and>
     count_list (new_events st st') (RunScript oi True) +
       count_list (new_events st st') (RunScript oi False) \<le>
       count_list (new_events st st') (Canonicalize smi) \<and>
     length (filter is_read (new_events st st')) \<le>
       mor * count_list (new_events st st') (RunScript oi True) \<and>
     count_list (new_events st st') (Sleep d) =
       count_list (new_events st st') (Log (ErrorProcessing oi)) +
       length (filter is_failed_read (new_events st st')) \<and>
     (if Log (SuccessfullyProcessed oi) \<in> set (new_events st st')
      then r = None \<and> success st' \<and>
           (\<exists>pre df. new_events st st' =
               pre @ [ReadOutput (OutRow df), Log (SuccessfullyProcessed oi), RemoveScript oi] \<and>
              all_hsp_full st' = all_hsp_full st @ [(df, oi)])
      else success st' = success st \<and> all_hsp_full st' = all_hsp_full st) \<and>
     (count_list (new_events st st') (Log (ErrorProcessing oi)) = n \<longrightarrow>
        r = None \<and>
        failed_output_smiles st' = failed_output_smiles st \<and>
        invalid_smiles_indices st' = invalid_smiles_indices st \<and>
        Log (MaxOutputRetriesReached oi) \<notin> set (new_events st st') \<and>
        Log (SuccessfullyProcessed oi) \<notin> set (new_events st st'))"
proof (induction n arbitrary: st)
  case 0
  then show ?case by (simp add: new_events_def)
next
  case (Suc n)
  obtain c st1 where a: "attempt lib w mor d rd smi oi st = (c, st1)"
    by (cases "attempt lib w mor d rd smi oi st")
  note A = attempt_events[OF a]
  then obtain E1 where E1: "trace st1 = trace st @ E1" by blast
  have n1: "new_events st st1 = E1" using E1 by simp
  note A' = A[unfolded n1]
  show ?case
  proof (cases c)
    case LeaveLoop
    with Suc.prems a have "st' = st1" "r = None" by simp_all
    with A' LeaveLoop E1 show ?thesis by (auto split: if_splits)
  next
    case (Propagate ex)
    with Suc.prems a have "st' = st1" by simp
    with A' Propagate E1 show ?thesis by (auto split: if_splits)
  next
    case NextAttempt
    with Suc.prems a have l: "retry_loop lib w mor d rd smi oi n st1 = (r, st')" by simp
    note B = Suc.IH[OF l]
    then obtain E2 where E2: "trace st' = trace st1 @ E2" by blast
    have n2: "new_events st1 st' = E2" using E2 by simp
    have n: "new_events st st' = E1 @ E2" using E1 E2 by simp
    note B' = B[unfolded n2]
    from A' NextAttempt have A1: "count_list E1 (Canonicalize smi) = 1"
      "count_list E1 (Log (ErrorProcessing oi)) = 1" "length (filter is_outer_exception E1) = 1"
      "count_list E1 (RunScript oi True) + count_list E1 (RunScript oi False) \<le> 1"
      "length (filter is_read E1) \<le> mor * count_list E1 (RunScript oi True)"
      "count_list E1 (Sleep d) = 1 + length (filter is_failed_read E1)"
      "Log (SuccessfullyProcessed oi) \<notin> set E1" "Log (MaxOutputRetriesReached oi) \<notin> set E1"
      "success st1 = success st" "all_hsp_full st1 = all_hsp_full st"
      "failed_output_smiles st1 = failed_output_smiles st"
      "invalid_smiles_indices st1 = invalid_smiles_indices st"
      by (simp_all split: if_splits)
    have reads: "length (filter is_read (E1 @ E2)) \<le>
        mor * count_list (E1 @ E2) (RunScript oi True)"
      using A1(5) B' by (simp add: add_mult_distrib2)
    have succ: "if Log (SuccessfullyProcessed oi) \<in> set (E1 @ E2)
      then r = None \<and> success st' \<and>
           (\<exists>pre df. E1 @ E2 =
               pre @ [ReadOutput (OutRow df), Log (SuccessfullyProcessed oi), RemoveScript oi] \<and>
              all_hsp_full st' = all_hsp_full st @ [(df, oi)])
      else success st' = success st \<and> all_hsp_full st' = all_hsp_full st"
    proof (cases "Log (SuccessfullyProcessed oi) \<in> set E2")
      case True
      with B' obtain pre df where p: "r = None" "success st'"
        "E2 = pre @ [ReadOutput (OutRow df), Log (SuccessfullyProcessed oi), RemoveScript oi]"
        "all_hsp_full st' = all_hsp_full st1 @ [(df, oi)]"
        by auto
      then have "E1 @ E2 = (E1 @ pre) @
          [ReadOutput (OutRow df), Log (SuccessfullyProcessed oi), RemoveScript oi]"
        by simp
      with p A1 True show ?thesis by (auto simp del: append_assoc)
    next
      case False
      with B' A1 show ?thesis by simp
    qed
    show ?thesis
      unfolding n
      apply (intro conjI)
               apply (use E1 E2 in simp)
              apply (use A1 B' in simp)
             apply (use A1 B' in simp)
            apply (use A1 B' in simp)
           apply (use A1 B' in simp)
          apply (use A1 B' in simp)
         apply (rule reads)
        apply (use A1 B' in simp)
       apply (rule succ)
      apply (use A1 B' in \<open>simp split: if_splits\<close>)
      done
  qed
qed


lemma failed_reads_0: "failed_reads w d t 0 = []"
  by (simp add: failed_reads_def)

lemma failed_reads_Suc:
  "failed_reads w d t (Suc k) = [ReadOutput (out_at w t), Sleep d] @ failed_reads w d (Suc t) k"
proof -
  have "[0..<Suc k] = 0 # map Suc [0..<k]"
    by (simp add: upt_conv_Cons map_Suc_upt del: upt_Suc)
  then show ?thesis
    by (simp add: failed_reads_def comp_def del: upt_Suc)
qed

lemma reads_fail_Suc:
  "reads_fail w t (Suc k) \<longleftrightarrow>
     (out_at w t = OutAbsent \<or> out_at w t = OutUnreadable) \<and> reads_fail w (Suc t) k"
proof -
  have "[0..<Suc k] = 0 # map Suc [0..<k]"
    by (simp add: upt_conv_Cons map_Suc_upt del: upt_Suc)
  then show ?thesis
    unfolding reads_fail_def by (simp add: list.pred_map comp_def del: upt_Suc)
qed

lemma read_output_loop_failed:
  "reads_fail w (clock st) k \<Longrightarrow>
     read_output_loop w d oi (k + n) st =
       read_output_loop w d oi n
         (st\<lparr>clock := clock st + k, trace := trace st @ failed_reads w d (clock st) k\<rparr>)"
proof (induction k arbitrary: st)
  case 0
  then show ?case by (simp add: failed_reads_0)
next
  case (Suc k)
  from Suc.prems have o: "out_at w (clock st) = OutAbsent \<or> out_at w (clock st) = OutUnreadable"
    and r: "reads_fail w (Suc (clock st)) k"
    by (simp_all add: reads_fail_Suc)
  let ?s = "sleep d (observe (ReadOutput (out_at w (clock st))) st)"
  have c: "clock ?s = Suc (clock st)" by (simp add: sleep_def emit_def observe_def)
  have 1: "read_output_loop w d oi (Suc k + n) st = read_output_loop w d oi (k + n) ?s"
    using o by auto
  from r c have "reads_fail w (clock ?s) k" by simp
  from Suc.IH[OF this] have 2: "read_output_loop w d oi (k + n) ?s =
      read_output_loop w d oi n
         (?s\<lparr>clock := clock ?s + k, trace := trace ?s @ failed_reads w d (clock ?s) k\<rparr>)" .
  have 3: "?s\<lparr>clock := clock ?s + k, trace := trace ?s @ failed_reads w d (clock ?s) k\<rparr> =
      st\<lparr>clock := clock st + Suc k, trace := trace st @ failed_reads w d (clock st) (Suc k)\<rparr>"
    by (simp add: sleep_def emit_def observe_def failed_reads_Suc)
  show ?case unfolding 1 2 3 ..
qed


lemma try_body_run:
  assumes "canonicalize_smiles lib smi = Some c" and "create_at w (clock st) = Created"
    and "run_at w (Suc (clock st))"
  shows "try_body lib w mor d rd smi oi st =
     (case read_output_loop w d oi mor
             (st\<lparr>batch_file_path := Some oi, scripts := insert oi (scripts st),
                 clock := clock st + 2,
                 trace := trace st @ [Canonicalize smi, CreateScript oi c Created,
                                      RunScript oi True]\<rparr>) of
        (Some e, st3) \<Rightarrow> (Raised e, st3)
      | (None, st3) \<Rightarrow>
          (if success st3 then (Break, st3)
           else (Break, escalate rd smi oi (emit (Log (MaxOutputRetriesReached oi)) st3))))"
  using assms
  by (simp add: try_body_def Let_def create_batch_file_def observe_def emit_def)

lemma attempt_create_raises:
  assumes "canonicalize_smiles lib smi = Some c" and "create_at w (clock st) = CreateRaises left"
  shows "\<exists>st1. attempt lib w mor d rd smi oi st = (NextAttempt, st1) \<and>
     trace st1 = trace st @
       [Canonicalize smi, CreateScript oi c (CreateRaises left), Log (ErrorProcessing oi), Sleep d] @
       (if left \<or> oi \<in> scripts st then [RemoveScript oi] else []) \<and>
     clock st1 = clock st + 1 \<and> scripts st1 = scripts st - {oi} \<and>
     batch_file_path st1 = Some oi \<and> success st1 = success st \<and>
     all_hsp_full st1 = all_hsp_full st \<and> failed_output_smiles st1 = failed_output_smiles st \<and>
     invalid_smiles_indices st1 = invalid_smiles_indices st"
  using assms
  by (cases left)
     (auto simp: attempt_def try_body_def Let_def create_batch_file_def observe_def emit_def
        sleep_def)

lemma attempt_run_raises:
  assumes "canonicalize_smiles lib smi = Some c" and "create_at w (clock st) = Created"
    and "\<not> run_at w (Suc (clock st))"
  shows "\<exists>st1. attempt lib w mor d rd smi oi st = (NextAttempt, st1) \<and>
     trace st1 = trace st @
       [Canonicalize smi, CreateScript oi c Created, RunScript oi False,
        Log (ErrorProcessing oi), Sleep d, RemoveScript oi] \<and>
     clock st1 = clock st + 2 \<and> scripts st1 = scripts st - {oi} \<and>
     batch_file_path st1 = Some oi \<and> success st1 = success st \<and>
     all_hsp_full st1 = all_hsp_full st \<and> failed_output_smiles st1 = failed_output_smiles st \<and>
     invalid_smiles_indices st1 = invalid_smiles_indices st"
  using assms
  by (auto simp: attempt_def try_body_def Let_def create_batch_file_def observe_def emit_def
        sleep_def)



lemma read_output_loop_stat:
  assumes "reads_fail w (clock st) k" and "out_at w (clock st + k) = OutStatRaises"
  shows "read_output_loop w d oi (k + Suc m) st =
     (Some OSError,
      st\<lparr>clock := clock st + k + 1,
         trace := trace st @ failed_reads w d (clock st) k @ [ReadOutput OutStatRaises]\<rparr>)"
  unfolding read_output_loop_failed[OF assms(1)] using assms(2)
  by (simp add: observe_def)


lemma read_output_loop_row:
  assumes "reads_fail w (clock st) k" and "out_at w (clock st + k) = OutRow df"
  shows "read_output_loop w d oi (k + Suc m) st =
     (None,
      st\<lparr>clock := clock st + k + 1,
         trace := trace st @ failed_reads w d (clock st) k @
                  [ReadOutput (OutRow df), Log (SuccessfullyProcessed oi)],
         all_hsp_full := all_hsp_full st @ [(df, oi)], success := True\<rparr>)"
  unfolding read_output_loop_failed[OF assms(1)] using assms(2)
  by (simp add: observe_def emit_def)

lemma read_output_loop_exhausted:
  "reads_fail w (clock st) mor \<Longrightarrow>
     read_output_loop w d oi mor st =
       (None, st\<lparr>clock := clock st + mor, trace := trace st @ failed_reads w d (clock st) mor\<rparr>)"
  using read_output_loop_failed[of w st mor d oi 0] by simp

lemma attempt_stat_raises:
  assumes "canonicalize_smiles lib smi = Some c" and "create_at w (clock st) = Created"
    and "run_at w (Suc (clock st))" and "k < mor" and "reads_fail w (clock st + 2) k"
    and "out_at w (clock st + 2 + k) = OutStatRaises"
  shows "\<exists>st1. attempt lib w mor d rd smi oi st = (NextAttempt, st1) \<and>
     trace st1 = trace st @
       [Canonicalize smi, CreateScript oi c Created, RunScript oi True] @
       failed_reads w d (clock st + 2) k @
       [ReadOutput OutStatRaises, Log (ErrorProcessing oi), Sleep d, RemoveScript oi] \<and>
     clock st1 = clock st + 3 + k \<and> scripts st1 = scripts st - {oi} \<and>
     batch_file_path st1 = Some oi \<and> success st1 = success st \<and>
     all_hsp_full st1 = all_hsp_full st \<and> failed_output_smiles st1 = failed_output_smiles st \<and>
     invalid_smiles_indices st1 = invalid_smiles_indices st"
proof -
  let ?s3 = "st\<lparr>batch_file_path := Some oi, scripts := insert oi (scripts st),
                 clock := clock st + 2,
                 trace := trace st @ [Canonicalize smi, CreateScript oi c Created,
                                      RunScript oi True]\<rparr>"
  define m where "m = mor - Suc k"
  have m: "mor = k + Suc m" using assms(4) by (simp add: m_def)
  have rf: "reads_fail w (clock ?s3) k" using assms(5) by simp
  have o: "out_at w (clock ?s3 + k) = OutStatRaises" using assms(6) by simp
  note rl = read_output_loop_stat[OF rf o, of d oi m, folded m]
  show ?thesis
    unfolding attempt_def try_body_run[OF assms(1-3)] rl
    by (simp add: emit_def sleep_def)
qed


lemma attempt_read_success:
  assumes "canonicalize_smiles lib smi = Some c" and "create_at w (clock st) = Created"
    and "run_at w (Suc (clock st))" and "k < mor" and "reads_fail w (clock st + 2) k"
    and "out_at w (clock st + 2 + k) = OutRow df"
  shows "\<exists>st1. attempt lib w mor d rd smi oi st = (LeaveLoop, st1) \<and>
     trace st1 = trace st @
       [Canonicalize smi, CreateScript oi c Created, RunScript oi True] @
       failed_reads w d (clock st + 2) k @
       [ReadOutput (OutRow df), Log (SuccessfullyProcessed oi), RemoveScript oi] \<and>
     clock st1 = clock st + 3 + k \<and> scripts st1 = scripts st - {oi} \<and>
     batch_file_path st1 = Some oi \<and> success st1 \<and>
     all_hsp_full st1 = all_hsp_full st @ [(df, oi)] \<and>
     failed_output_smiles st1 = failed_output_smiles st \<and>
     invalid_smiles_indices st1 = invalid_smiles_indices st"
proof -
  let ?s3 = "st\<lparr>batch_file_path := Some oi, scripts := insert oi (scripts st),
                 clock := clock st + 2,
                 trace := trace st @ [Canonicalize smi, CreateScript oi c Created,
                                      RunScript oi True]\<rparr>"
  define m where "m = mor - Suc k"
  have m: "mor = k + Suc m" using assms(4) by (simp add: m_def)
  have rf: "reads_fail w (clock ?s3) k" using assms(5) by simp
  have o: "out_at w (clock ?s3 + k) = OutRow df" using assms(6) by simp
  note rl = read_output_loop_row[OF rf o, of d oi m, folded m]
  show ?thesis
    unfolding attempt_def try_body_run[OF assms(1-3)] rl
    by (simp add: emit_def sleep_def)
qed

lemma attempt_reads_exhausted:
  assumes "canonicalize_smiles lib smi = Some c" and "create_at w (clock st) = Created"
    and "run_at w (Suc (clock st))" and "reads_fail w (clock st + 2) mor" and "\<not> success st"
  shows "\<exists>st1. attempt lib w mor d rd smi oi st = (LeaveLoop, st1) \<and>
     trace st1 = trace st @
       [Canonicalize smi, CreateScript oi c Created, RunScript oi True] @
       failed_reads w d (clock st + 2) mor @
       [Log (MaxOutputRetriesReached oi), RemoveScript oi] \<and>
     clock st1 = clock st + 2 + mor \<and> scripts st1 = scripts st - {oi} \<and>
     batch_file_path st1 = Some oi \<and> \<not> success st1 \<and>
     all_hsp_full st1 = all_hsp_full st"
proof -
  let ?s3 = "st\<lparr>batch_file_path := Some oi, scripts := insert oi (scripts st),
                 clock := clock st + 2,
                 trace := trace st @ [Canonicalize smi, CreateScript oi c Created,
                                      RunScript oi True]\<rparr>"
  have rf: "reads_fail w (clock ?s3) mor" using assms(4) by simp
  show ?thesis
    unfolding attempt_def try_body_run[OF assms(1-3)] read_output_loop_exhausted[OF rf]
    using assms(5)
    by (simp add: emit_def sleep_def escalate_def)
qed

lemma failed_read_count:
  "length (filter is_failed_read evs) =
     count_list evs (ReadOutput OutAbsent) + length (filter is_parse_exception evs)"
proof (induction evs)
  case Nil
  then show ?case by simp
next
  case (Cons a evs)
  then show ?case by (cases a rule: is_failed_read.cases) auto
qed

lemma retry_loop_attempts:
  "retry_loop lib w mor d rd smi oi n st = (r, st') \<Longrightarrow>
     count_list (new_events st st') (Canonicalize smi) =
       (if count_list (new_events st st') (Log (ErrorProcessing oi)) = n then n
        else count_list (new_events st st') (Log (ErrorProcessing oi)) + 1)"
proof (induction n arbitrary: st)
  case 0
  then show ?case by (simp add: new_events_def)
next
  case (Suc n)
  obtain c st1 where a: "attempt lib w mor d rd smi oi st = (c, st1)"
    by (cases "attempt lib w mor d rd smi oi st")
  note A = attempt_events[OF a]
  then obtain E1 where E1: "trace st1 = trace st @ E1" by blast
  have n1: "new_events st st1 = E1" using E1 by simp
  from A have A1: "count_list E1 (Canonicalize smi) = 1"
    "count_list E1 (Log (ErrorProcessing oi)) = (if c = NextAttempt then 1 else 0)"
    unfolding n1 by simp_all
  show ?case
  proof (cases c)
    case LeaveLoop
    with Suc.prems a have "st' = st1" by simp
    with A1 LeaveLoop n1 show ?thesis by simp
  next
    case (Propagate ex)
    with Suc.prems a have "st' = st1" by simp
    with A1 Propagate n1 show ?thesis by simp
  next
    case NextAttempt
    with Suc.prems a have l: "retry_loop lib w mor d rd smi oi n st1 = (r, st')" by simp
    from retry_loop_events[OF l] obtain E2 where E2: "trace st' = trace st1 @ E2" by blast
    have n2: "new_events st1 st' = E2" using E2 by simp
    have n: "new_events st st' = E1 @ E2" using E1 E2 by simp
    from Suc.IH[OF l] have "count_list E2 (Canonicalize smi) =
       (if count_list E2 (Log (ErrorProcessing oi)) = n then n
        else count_list E2 (Log (ErrorProcessing oi)) + 1)"
      unfolding n2 .
    with A1 NextAttempt show ?thesis unfolding n by simp
  qed
qed

text \<open>
  C5, counterexample. The output file is there after each run and never parses: each of
  the three reads of the first attempt raises in \<open>pd.read_csv\<close>. The three exceptions
  are caught at line 226 and followed by a sleep of \<open>retry_delay\<close>, then the read loop
  is exhausted and line 241 leaves the retry loop. One attempt was made, not three:
  these exceptions during reading consumed none of the \<open>max_retries\<close> attempts.
\<close>

theorem read_exception_consumes_no_attempt_counterexample:
  "max_retries initial_config = 3 \<and>
   new_events (enter fresh)
     (snd (retry_loop rdkit_all tool_garbled (max_output_retries initial_config)
        (retry_delay initial_config) (round_desc initial_config) ''CCO'' 0
        (max_retries initial_config) (enter fresh))) =
     [Canonicalize ''CCO'', CreateScript 0 ''CCO'' Created, RunScript 0 True,
      ReadOutput OutUnreadable, Sleep 2, ReadOutput OutUnreadable, Sleep 2,
      ReadOutput OutUnreadable, Sleep 2,
      Log (MaxOutputRetriesReached 0), RemoveScript 0] \<and>
   fst (retry_loop rdkit_all tool_garbled (max_output_retries initial_config)
        (retry_delay initial_config) (round_desc initial_config) ''CCO'' 0
        (max_retries initial_config) (enter fresh)) = None"
  by code_simp

text \<open>
  C5, as amended. The retry loop of one item makes at most \<open>max_retries\<close> attempts, and
  makes the next one after every exception that reaches the handler of line 242 while
  attempts remain: the attempts number these exceptions plus one, or \<open>max_retries\<close> when
  all of them ended so. Each such exception is logged, followed by one sleep of
  \<open>retry_delay\<close>, and consumes exactly one attempt. An exception of \<open>pd.read_csv\<close> or
  \<open>opts.iloc[0]\<close> is caught at line 226: like an absent file it is followed by one sleep
  of \<open>retry_delay\<close> and consumes one of the \<open>max_output_retries\<close> reads, not an attempt. A
  successful read ends the loop: nothing follows it but the removal of the script.

  One attempt, for an identifier that canonicalizes to \<open>c\<close>, does the following,
  according to what the environment answers. If writing the script raises, or the
  process exits with an error, the exception is logged, the loop sleeps, removes the
  script and goes on with the attempts left. If the process succeeds, the output is
  read: after \<open>k < max_output_retries\<close> failed reads, each followed by a sleep, either
  \<open>os.path.getsize\<close> raises, which ends the attempt like the exceptions above, or the
  record is read, stored with the item's index, and the loop is left with \<open>success\<close>
  set. After \<open>max_output_retries\<close> failed reads the loop is left without success.
\<close>

theorem per_item_retry_loop:
  "(\<forall>r st'. item_retries lib w cfg smi oi (max_retries cfg) st = (r, st') \<longrightarrow>
      (\<exists>evs. trace st' = trace st @ evs) \<and>
      count_list (new_events st st') (Canonicalize smi) \<le> max_retries cfg \<and>
      count_list (new_events st st') (Canonicalize smi) =
        (if length (filter is_outer_exception (new_events st st')) = max_retries cfg
         then max_retries cfg
         else length (filter is_outer_exception (new_events st st')) + 1) \<and>
      count_list (new_events st st') (Log (ErrorProcessing oi)) =
        length (filter is_outer_exception (new_events st st')) \<and>
      count_list (new_events st st') (RunScript oi True) +
        count_list (new_events st st') (RunScript oi False) \<le>
        count_list (new_events st st') (Canonicalize smi) \<and>
      length (filter is_read (new_events st st')) \<le>
        max_output_retries cfg * count_list (new_events st st') (RunScript oi True) \<and>
      count_list (new_events st st') (Sleep (retry_delay cfg)) =
        length (filter is_outer_exception (new_events st st')) +
        length (filter is_parse_exception (new_events st st')) +
        count_list (new_events st st') (ReadOutput OutAbsent) \<and>
      (Log (SuccessfullyProcessed oi) \<in> set (new_events st st') \<longrightarrow>
         r = None \<and> success st' \<and>
         (\<exists>pre df. new_events st st' =
             pre @ [ReadOutput (OutRow df), Log (SuccessfullyProcessed oi), RemoveScript oi] \<and>
            all_hsp_full st' = all_hsp_full st @ [(df, oi)]))) \<and>
   (\<forall>n c. canonicalize_smiles lib smi = Some c \<longrightarrow>
      (\<forall>left. create_at w (clock st) = CreateRaises left \<longrightarrow>
         (\<exists>st1. item_retries lib w cfg smi oi (Suc n) st = item_retries lib w cfg smi oi n st1 \<and>
            trace st1 = trace st @
              [Canonicalize smi, CreateScript oi c (CreateRaises left),
               Log (ErrorProcessing oi), Sleep (retry_delay cfg)] @
              (if left \<or> oi \<in> scripts st then [RemoveScript oi] else []) \<and>
            clock st1 = clock st + 1 \<and> success st1 = success st \<and>
            all_hsp_full st1 = all_hsp_full st)) \<and>
      (create_at w (clock st) = Created \<and> \<not> run_at w (Suc (clock st)) \<longrightarrow>
         (\<exists>st1. item_retries lib w cfg smi oi (Suc n) st = item_retries lib w cfg smi oi n st1 \<and>
            trace st1 = trace st @
              [Canonicalize smi, CreateScript oi c Created, RunScript oi False,
               Log (ErrorProcessing oi), Sleep (retry_delay cfg), RemoveScript oi] \<and>
            clock st1 = clock st + 2 \<and> success st1 = success st \<and>
            all_hsp_full st1 = all_hsp_full st)) \<and>
      (\<forall>k. create_at w (clock st) = Created \<and> run_at w (Suc (clock st)) \<and>
           k < max_output_retries cfg \<and> reads_fail w (clock st + 2) k \<longrightarrow>
         (out_at w (clock st + 2 + k) = OutStatRaises \<longrightarrow>
            (\<exists>st1. item_retries lib w cfg smi oi (Suc n) st = item_retries lib w cfg smi oi n st1 \<and>
               trace st1 = trace st @
                 [Canonicalize smi, CreateScript oi c Created, RunScript oi True] @
                 failed_reads w (retry_delay cfg) (clock st + 2) k @
                 [ReadOutput OutStatRaises, Log (ErrorProcessing oi), Sleep (retry_delay cfg),
                  RemoveScript oi] \<and>
               clock st1 = clock st + 3 + k \<and> success st1 = success st \<and>
               all_hsp_full st1 = all_hsp_full st)) \<and>
         (\<forall>df. out_at w (clock st + 2 + k) = OutRow df \<longrightarrow>
            (\<exists>st1. item_retries lib w cfg smi oi (Suc n) st = (None, st1) \<and>
               trace st1 = trace st @
                 [Canonicalize smi, CreateScript oi c Created, RunScript oi True] @
                 failed_reads w (retry_delay cfg) (clock st + 2) k @
                 [ReadOutput (OutRow df), Log (SuccessfullyProcessed oi), RemoveScript oi] \<and>
               success st1 \<and> all_hsp_full st1 = all_hsp_full st @ [(df, oi)]))) \<and>
      (create_at w (clock st) = Created \<and> run_at w (Suc (clock st)) \<and>
         reads_fail w (clock st + 2) (max_output_retries cfg) \<and> \<not> success st \<longrightarrow>
         (\<exists>st1. item_retries lib w cfg smi oi (Suc n) st = (None, st1) \<and>
            trace st1 = trace st @
              [Canonicalize smi, CreateScript oi c Created, RunScript oi True] @
              failed_reads w (retry_delay cfg) (clock st + 2) (max_output_retries cfg) @
              [Log (MaxOutputRetriesReached oi), RemoveScript oi] \<and>
            \<not> success st1 \<and> all_hsp_full st1 = all_hsp_full st)))"
proof (intro conjI allI impI)
  fix r st'
  assume l: "item_retries lib w cfg smi oi (max_retries cfg) st = (r, st')"
  note L = retry_loop_events[OF l]
  note N = retry_loop_attempts[OF l]
  note F = failed_read_count[of "new_events st st'"]
  from L show "\<exists>evs. trace st' = trace st @ evs" by blast
  from L show "count_list (new_events st st') (Canonicalize smi) \<le> max_retries cfg" by blast
  from L have e: "count_list (new_events st st') (Log (ErrorProcessing oi)) =
        length (filter is_outer_exception (new_events st st'))" by blast
  then show "count_list (new_events st st') (Log (ErrorProcessing oi)) =
        length (filter is_outer_exception (new_events st st'))" .
  from N show "count_list (new_events st st') (Canonicalize smi) =
        (if length (filter is_outer_exception (new_events st st')) = max_retries cfg
         then max_retries cfg
         else length (filter is_outer_exception (new_events st st')) + 1)"
    unfolding e .
  from L show "count_list (new_events st st') (RunScript oi True) +
        count_list (new_events st st') (RunScript oi False) \<le>
        count_list (new_events st st') (Canonicalize smi)" by blast
  from L show "length (filter is_read (new_events st st')) \<le>
        max_output_retries cfg * count_list (new_events st st') (RunScript oi True)" by blast
  from L have "count_list (new_events st st') (Sleep (retry_delay cfg)) =
       count_list (new_events st st') (Log (ErrorProcessing oi)) +
       length (filter is_failed_read (new_events st st'))" by blast
  then show "count_list (new_events st st') (Sleep (retry_delay cfg)) =
        length (filter is_outer_exception (new_events st st')) +
        length (filter is_parse_exception (new_events st st')) +
        count_list (new_events st st') (ReadOutput OutAbsent)"
    unfolding e F by simp
  {
    assume s: "Log (SuccessfullyProcessed oi) \<in> set (new_events st st')"
    from L have "if Log (SuccessfullyProcessed oi) \<in> set (new_events st st')
      then r = None \<and> success st' \<and>
           (\<exists>pre df. new_events st st' =
               pre @ [ReadOutput (OutRow df), Log (SuccessfullyProcessed oi), RemoveScript oi] \<and>
              all_hsp_full st' = all_hsp_full st @ [(df, oi)])
      else success st' = success st \<and> all_hsp_full st' = all_hsp_full st" by blast
    with s have c: "r = None \<and> success st' \<and>
           (\<exists>pre df. new_events st st' =
               pre @ [ReadOutput (OutRow df), Log (SuccessfullyProcessed oi), RemoveScript oi] \<and>
              all_hsp_full st' = all_hsp_full st @ [(df, oi)])" by simp
    from c show "r = None" by blast
    from c show "success st'" by blast
    from c show "\<exists>pre df. new_events st st' =
             pre @ [ReadOutput (OutRow df), Log (SuccessfullyProcessed oi), RemoveScript oi] \<and>
            all_hsp_full st' = all_hsp_full st @ [(df, oi)]" by blast
  }
next
  fix n c left
  assume "canonicalize_smiles lib smi = Some c" "create_at w (clock st) = CreateRaises left"
  from attempt_create_raises[OF this, of "max_output_retries cfg" "retry_delay cfg"
      "round_desc cfg" oi]
  show "\<exists>st1. item_retries lib w cfg smi oi (Suc n) st = item_retries lib w cfg smi oi n st1 \<and>
            trace st1 = trace st @
              [Canonicalize smi, CreateScript oi c (CreateRaises left),
               Log (ErrorProcessing oi), Sleep (retry_delay cfg)] @
              (if left \<or> oi \<in> scripts st then [RemoveScript oi] else []) \<and>
            clock st1 = clock st + 1 \<and> success st1 = success st \<and>
            all_hsp_full st1 = all_hsp_full st"
    by auto
next
  fix n c
  assume "canonicalize_smiles lib smi = Some c"
    "create_at w (clock st) = Created \<and> \<not> run_at w (Suc (clock st))"
  then have "canonicalize_smiles lib smi = Some c" "create_at w (clock st) = Created"
    "\<not> run_at w (Suc (clock st))" by simp_all
  from attempt_run_raises[OF this, of "max_output_retries cfg" "retry_delay cfg"
      "round_desc cfg" oi]
  show "\<exists>st1. item_retries lib w cfg smi oi (Suc n) st = item_retries lib w cfg smi oi n st1 \<and>
            trace st1 = trace st @
              [Canonicalize smi, CreateScript oi c Created, RunScript oi False,
               Log (ErrorProcessing oi), Sleep (retry_delay cfg), RemoveScript oi] \<and>
            clock st1 = clock st + 2 \<and> success st1 = success st \<and>
            all_hsp_full st1 = all_hsp_full st"
    by auto
next
  fix n c k
  assume "canonicalize_smiles lib smi = Some c"
    "create_at w (clock st) = Created \<and> run_at w (Suc (clock st)) \<and>
           k < max_output_retries cfg \<and> reads_fail w (clock st + 2) k"
    "out_at w (clock st + 2 + k) = OutStatRaises"
  then have "canonicalize_smiles lib smi = Some c" "create_at w (clock st) = Created"
    "run_at w (Suc (clock st))" "k < max_output_retries cfg" "reads_fail w (clock st + 2) k"
    "out_at w (clock st + 2 + k) = OutStatRaises" by simp_all
  from attempt_stat_raises[OF this, of "retry_delay cfg" "round_desc cfg" oi]
  show "\<exists>st1. item_retries lib w cfg smi oi (Suc n) st = item_retries lib w cfg smi oi n st1 \<and>
               trace st1 = trace st @
                 [Canonicalize smi, CreateScript oi c Created, RunScript oi True] @
                 failed_reads w (retry_delay cfg) (clock st + 2) k @
                 [ReadOutput OutStatRaises, Log (ErrorProcessing oi), Sleep (retry_delay cfg),
                  RemoveScript oi] \<and>
               clock st1 = clock st + 3 + k \<and> success st1 = success st \<and>
               all_hsp_full st1 = all_hsp_full st"
    by auto
next
  fix n c k df
  assume "canonicalize_smiles lib smi = Some c"
    "create_at w (clock st) = Created \<and> run_at w (Suc (clock st)) \<and>
           k < max_output_retries cfg \<and> reads_fail w (clock st + 2) k"
    "out_at w (clock st + 2 + k) = OutRow df"
  then have "canonicalize_smiles lib smi = Some c" "create_at w (clock st) = Created"
    "run_at w (Suc (clock st))" "k < max_output_retries cfg" "reads_fail w (clock st + 2) k"
    "out_at w (clock st + 2 + k) = OutRow df" by simp_all
  from attempt_read_success[OF this, of "retry_delay cfg" "round_desc cfg" oi]
  show "\<exists>st1. item_retries lib w cfg smi oi (Suc n) st = (None, st1) \<and>
               trace st1 = trace st @
                 [Canonicalize smi, CreateScript oi c Created, RunScript oi True] @
                 failed_reads w (retry_delay cfg) (clock st + 2) k @
                 [ReadOutput (OutRow df), Log (SuccessfullyProcessed oi), RemoveScript oi] \<and>
               success st1 \<and> all_hsp_full st1 = all_hsp_full st @ [(df, oi)]"
    by auto
next
  fix n c
  assume "canonicalize_smiles lib smi = Some c"
    "create_at w (clock st) = Created \<and> run_at w (Suc (clock st)) \<and>
         reads_fail w (clock st + 2) (max_output_retries cfg) \<and> \<not> success st"
  then have "canonicalize_smiles lib smi = Some c" "create_at w (clock st) = Created"
    "run_at w (Suc (clock st))" "reads_fail w (clock st + 2) (max_output_retries cfg)"
    "\<not> success st" by simp_all
  from attempt_reads_exhausted[OF this, of "retry_delay cfg" "round_desc cfg" oi]
  show "\<exists>st1. item_retries lib w cfg smi oi (Suc n) st = (None, st1) \<and>
            trace st1 = trace st @
              [Canonicalize smi, CreateScript oi c Created, RunScript oi True] @
              failed_reads w (retry_delay cfg) (clock st + 2) (max_output_retries cfg) @
              [Log (MaxOutputRetriesReached oi), RemoveScript oi] \<and>
            \<not> success st1 \<and> all_hsp_full st1 = all_hsp_full st"
    by auto
qed

text \<open>
  Two runs from the initial state. With a tool whose first run fails and whose output
  appears at the second read of the second run: the first attempt ends in the handler
  of line 242 and two attempts are left, and the whole loop makes one failed
  invocation, then one failed read, then a successful read. With a tool whose output
  never parses: the first attempt exhausts its three reads and ends the loop.
\<close>

theorem per_item_retry_loop_witness:
  "(\<exists>st1. item_retries rdkit_all tool_flaky initial_config ''CCO'' 0 3 (enter fresh) =
           item_retries rdkit_all tool_flaky initial_config ''CCO'' 0 2 st1 \<and>
         trace st1 =
           [Canonicalize ''CCO'', CreateScript 0 ''CCO'' Created, RunScript 0 False,
            Log (ErrorProcessing 0), Sleep 2, RemoveScript 0] \<and>
         clock st1 = 2) \<and>
   new_events (enter fresh)
     (snd (item_retries rdkit_all tool_flaky initial_config ''CCO'' 0
        (max_retries initial_config) (enter fresh))) =
     [Canonicalize ''CCO'', CreateScript 0 ''CCO'' Created, RunScript 0 False,
      Log (ErrorProcessing 0), Sleep 2, RemoveScript 0,
      Canonicalize ''CCO'', CreateScript 0 ''CCO'' Created, RunScript 0 True,
      ReadOutput OutAbsent, Sleep 2, ReadOutput (OutRow example_row),
      Log (SuccessfullyProcessed 0), RemoveScript 0] \<and>
   fst (item_retries rdkit_all tool_flaky initial_config ''CCO'' 0
        (max_retries initial_config) (enter fresh)) = None \<and>
   success (snd (item_retries rdkit_all tool_flaky initial_config ''CCO'' 0
        (max_retries initial_config) (enter fresh))) \<and>
   (\<exists>st1. item_retries rdkit_all tool_garbled initial_config ''CCO'' 0 3 (enter fresh) =
           (None, st1) \<and>
         trace st1 =
           [Canonicalize ''CCO'', CreateScript 0 ''CCO'' Created, RunScript 0 True,
            ReadOutput OutUnreadable, Sleep 2, ReadOutput OutUnreadable, Sleep 2,
            ReadOutput OutUnreadable, Sleep 2,
            Log (MaxOutputRetriesReached 0), RemoveScript 0] \<and>
         \<not> success st1)"
proof -
  let ?x = "item_retries rdkit_all tool_flaky initial_config ''CCO'' 0
        (max_retries initial_config) (enter fresh)"
  have h: "?x = (fst ?x, snd ?x)" by simp
  have e: "new_events (enter fresh) (snd ?x) =
     [Canonicalize ''CCO'', CreateScript 0 ''CCO'' Created, RunScript 0 False,
      Log (ErrorProcessing 0), Sleep 2, RemoveScript 0,
      Canonicalize ''CCO'', CreateScript 0 ''CCO'' Created, RunScript 0 True,
      ReadOutput OutAbsent, Sleep 2, ReadOutput (OutRow example_row),
      Log (SuccessfullyProcessed 0), RemoveScript 0]"
    by code_simp
  have canon: "canonicalize_smiles rdkit_all ''CCO'' = Some ''CCO''"
    by (simp add: canonicalize_smiles_def rdkit_all_def)
  note T = per_item_retry_loop[of rdkit_all tool_flaky initial_config "''CCO''" 0 "enter fresh"]
  note G = per_item_retry_loop[of rdkit_all tool_garbled initial_config "''CCO''" 0 "enter fresh"]
  from T[THEN conjunct1, THEN spec, THEN spec, THEN mp, OF h] e
  have 1: "fst ?x = None \<and> success (snd ?x)" by simp
  have f: "create_at tool_flaky (clock (enter fresh)) = Created \<and>
      \<not> run_at tool_flaky (Suc (clock (enter fresh)))"
    by (simp add: tool_flaky_def enter_def fresh_def)
  from T[THEN conjunct2, THEN spec[of _ 2], THEN spec, THEN mp, OF canon,
      THEN conjunct2, THEN conjunct1, THEN mp, OF f]
  have 2: "\<exists>st1. item_retries rdkit_all tool_flaky initial_config ''CCO'' 0 3 (enter fresh) =
           item_retries rdkit_all tool_flaky initial_config ''CCO'' 0 2 st1 \<and>
         trace st1 =
           [Canonicalize ''CCO'', CreateScript 0 ''CCO'' Created, RunScript 0 False,
            Log (ErrorProcessing 0), Sleep 2, RemoveScript 0] \<and>
         clock st1 = 2"
    by (auto simp: initial_config_def enter_def fresh_def numeral_3_eq_3)
  have g: "create_at tool_garbled (clock (enter fresh)) = Created \<and>
      run_at tool_garbled (Suc (clock (enter fresh))) \<and>
      reads_fail tool_garbled (clock (enter fresh) + 2) (max_output_retries initial_config) \<and>
      \<not> success (enter fresh)"
    by (simp add: tool_garbled_def enter_def fresh_def reads_fail_def list_all_iff)
  from G[THEN conjunct2, THEN spec[of _ 2], THEN spec, THEN mp, OF canon,
      THEN conjunct2, THEN conjunct2, THEN conjunct2, THEN mp, OF g]
  have 3: "\<exists>st1. item_retries rdkit_all tool_garbled initial_config ''CCO'' 0 3 (enter fresh) =
           (None, st1) \<and>
         trace st1 =
           [Canonicalize ''CCO'', CreateScript 0 ''CCO'' Created, RunScript 0 True,
            ReadOutput OutUnreadable, Sleep 2, ReadOutput OutUnreadable, Sleep 2,
            ReadOutput OutUnreadable, Sleep 2,
            Log (MaxOutputRetriesReached 0), RemoveScript 0] \<and>
         \<not> success st1"
    by (auto simp: initial_config_def enter_def fresh_def numeral_3_eq_3 failed_reads_def
        tool_garbled_def)
  from 1 2 3 e show ?thesis by (intro conjI) simp_all
qed

text \<open>
  C6, as stated, fails: with a tool whose process exits with an error in each of the
  three attempts, and no read ever made, the item is in \<open>failed_output_smiles\<close>, the
  work list of the second round, when the initial round is done with it.
\<close>

theorem invocation_failure_escalated_counterexample:
  "fst (process_item rdkit_all tool_failing initial_config (''CCO'', 0) (enter fresh)) = None \<and>
   trace (snd (process_item rdkit_all tool_failing initial_config (''CCO'', 0) (enter fresh))) =
     [Canonicalize ''CCO'', CreateScript 0 ''CCO'' Created, RunScript 0 False,
      Log (ErrorProcessing 0), Sleep 2, RemoveScript 0,
      Canonicalize ''CCO'', CreateScript 0 ''CCO'' Created, RunScript 0 False,
      Log (ErrorProcessing 0), Sleep 2, RemoveScript 0,
      Canonicalize ''CCO'', CreateScript 0 ''CCO'' Created, RunScript 0 False,
      Log (ErrorProcessing 0), Sleep 2, RemoveScript 0,
      Log (FailedToProcess 0), ClearClipboard, Sleep 2] \<and>
   failed_output_smiles
     (snd (process_item rdkit_all tool_failing initial_config (''CCO'', 0) (enter fresh))) =
     [(''CCO'', 0)]"
  by code_simp

text \<open>
  C6, amended. In the initial round, an item all of whose \<open>max_retries\<close> attempts end in
  an exception is appended to \<open>failed_output_smiles\<close> exactly once, by the check after the
  retry loop (lines 250-253); its read loop was never exhausted.
\<close>

theorem invocation_failure_escalated_once:
  assumes "process_item lib w cfg (smi, oi) st = (r, st')"
    and "round_desc cfg = ''initial''"
    and "count_list (new_events st st') (Log (ErrorProcessing oi)) = max_retries cfg"
  shows "r = None \<and> failed_output_smiles st' = failed_output_smiles st @ [(smi, oi)] \<and>
         Log (MaxOutputRetriesReached oi) \<notin> set (new_events st st')"
proof -
  let ?s0 = "st\<lparr>success := False\<rparr>"
  obtain r1 st1 where l: "retry_loop lib w (max_output_retries cfg) (retry_delay cfg)
      (round_desc cfg) smi oi (max_retries cfg) ?s0 = (r1, st1)"
    by (cases "retry_loop lib w (max_output_retries cfg) (retry_delay cfg)
      (round_desc cfg) smi oi (max_retries cfg) ?s0")
  note L = retry_loop_events[OF l]
  then obtain E where E: "trace st1 = trace ?s0 @ E" by blast
  have n0: "new_events ?s0 st1 = E" using E by simp
  note L' = L[unfolded n0]
  have E': "trace st1 = trace st @ E" using E by simp
  have c: "count_list (new_events st st') (Log (ErrorProcessing oi)) = count_list E (Log (ErrorProcessing oi))"
  proof (cases r1)
    case (Some ex)
    with l assms(1) have "st' = st1" by (simp add: process_item_def)
    with E' show ?thesis by simp
  next
    case None
    with l assms(1) have "\<exists>tl. trace st' = trace st1 @ tl \<and> Log (ErrorProcessing oi) \<notin> set tl"
      by (auto simp: process_item_def Let_def escalate_def emit_def sleep_def)
    then obtain tl where "trace st' = trace st @ (E @ tl)" "Log (ErrorProcessing oi) \<notin> set tl"
      using E' by auto
    then show ?thesis by (simp add: count_list_0_iff)
  qed
  with assms(3) L' have f: "r1 = None" "failed_output_smiles st1 = failed_output_smiles st"
    "Log (MaxOutputRetriesReached oi) \<notin> set E" "Log (SuccessfullyProcessed oi) \<notin> set E"
    by simp_all
  with L' have ns: "\<not> success st1" by simp
  from l f(1) ns assms(1,2) have
    st': "st' = sleep (clipboard_delay cfg) (emit ClearClipboard
            (escalate ''initial'' smi oi (emit (Log (FailedToProcess oi)) st1)))" and r: "r = None"
    by (auto simp: process_item_def Let_def)
  from st' E' have "new_events st st' = E @ [Log (FailedToProcess oi), ClearClipboard, Sleep (clipboard_delay cfg)]"
    by (simp add: escalate_def emit_def sleep_def new_events_def)
  with st' r f show ?thesis
    by (simp add: escalate_def emit_def sleep_def)
qed

theorem invocation_failure_escalated_once_witness:
  "round_desc initial_config = ''initial'' \<and>
   count_list (new_events (enter fresh)
      (snd (process_item rdkit_all tool_failing initial_config (''CCO'', 0) (enter fresh))))
      (Log (ErrorProcessing 0)) = max_retries initial_config \<and>
   failed_output_smiles
     (snd (process_item rdkit_all tool_failing initial_config (''CCO'', 0) (enter fresh))) =
     [(''CCO'', 0)]"
proof -
  let ?x = "process_item rdkit_all tool_failing initial_config (''CCO'', 0) (enter fresh)"
  have h1: "?x = (fst ?x, snd ?x)" by simp
  have h2: "round_desc initial_config = ''initial''" by (simp add: initial_config_def)
  have h3: "count_list (new_events (enter fresh) (snd ?x)) (Log (ErrorProcessing 0)) =
      max_retries initial_config"
    by code_simp
  have h4: "failed_output_smiles (enter fresh) = []" by (simp add: enter_def)
  from invocation_failure_escalated_once[OF h1 h2 h3] h2 h3 h4 show ?thesis by simp
qed

text \<open>
  C7. The \<open>finally\<close> clause reads \<open>batch_file_path\<close>, which line 200 assigns only after
  the canonicalization. When the canonicalization gives \<open>None\<close> in the first attempt of
  the first item of a round, the name is unbound: the clause raises \<open>UnboundLocalError\<close>,
  which leaves the function and ends the script before any file is written.
\<close>

theorem cleanup_unbound_path:
  "fst (main rdkit_uncanonical tool_ok ''T'' [''CCO'']) =
     Some (UnboundLocalError ''batch_file_path'') \<and>
   trace (snd (main rdkit_uncanonical tool_ok ''T'' [''CCO''])) =
     [Canonicalize ''CCO'', Log (FailedToCanonicalize 0)] \<and>
   files (snd (main rdkit_uncanonical tool_ok ''T'' [''CCO''])) = []"
  by code_simp

text \<open>
  C1. With one identifier that the tool processes at once, the script writes the
  checkpoint of the round and then stops at line 288 with \<open>NameError\<close>; with no valid
  identifier it stops there too, having written no file. No \<open>all_HSP_\<close> file is
  written in either run.
\<close>

theorem final_files_never_written:
  "fst (main rdkit_all tool_ok ''T'' [''CCO'']) = Some (NameError ''failed_output_smiles'') \<and>
   files (snd (main rdkit_all tool_ok ''T'' [''CCO''])) =
     [(''intermediate_HSP_T.csv'', [(''CCO'', example_row)]),
      (''intermediate_HSP_T.xlsx'', [(''CCO'', example_row)])] \<and>
   fst (main rdkit_all tool_ok ''T'' [''CAS number not found'']) =
     Some (NameError ''failed_output_smiles'') \<and>
   files (snd (main rdkit_all tool_ok ''T'' [''CAS number not found''])) = []"
  by code_simp

text \<open>
  C2. With a tool whose output appears too late for the three reads of the initial
  round and would be there for a second pass, the item is processed once: the script
  stops at line 288 with \<open>NameError\<close>, no second pass is made, and the only table
  written holds the placeholder for the item.
\<close>

theorem second_pass_never_run:
  "fst (main rdkit_all tool_slow ''T'' [''CCO'']) = Some (NameError ''failed_output_smiles'') \<and>
   trace (snd (main rdkit_all tool_slow ''T'' [''CCO''])) =
     [Canonicalize ''CCO'', CreateScript 0 ''CCO'' Created, RunScript 0 True,
      ReadOutput OutAbsent, Sleep 2, ReadOutput OutAbsent, Sleep 2, ReadOutput OutAbsent, Sleep 2,
      Log (MaxOutputRetriesReached 0), RemoveScript 0,
      Log (FailedToProcess 0), ClearClipboard, Sleep 2] \<and>
   files (snd (main rdkit_all tool_slow ''T'' [''CCO''])) =
     [(''intermediate_HSP_T.csv'', [(''CCO'', empty_df)]),
      (''intermediate_HSP_T.xlsx'', [(''CCO'', empty_df)])]"
  by code_simp

text \<open>Line 288 is reached by every run that leaves the initial round normally.\<close>

lemma main_always_raises: "fst (main lib w timestamp all_smiles) \<noteq> None"
  by (simp add: main_def Let_def split: sum.splits prod.splits option.splits)

section \<open>Properties of the checkpoints\<close>






















end
